theory Spec2Isabelle
  imports Main
begin

section \<open>Data model of the tab router\<close>

text \<open>
  The embedding follows \<^verbatim>\<open>src/routers/TabRouter.js\<close>. Navigation states and routes are
  JavaScript objects with identity: the reducer compares them with \<^verbatim>\<open>!==\<close>, copies them with
  object spread and, in one place, assigns to a property of the state it was given. They are
  therefore cells of an explicit store, addressed by references; a reference is the identity
  of an object. Arrays (\<^verbatim>\<open>routes\<close>, \<^verbatim>\<open>order\<close>) and \<^verbatim>\<open>params\<close> objects are never updated in place by
  this module once they are shared, so they are values: an array is its sequence of slots, a
  \<^verbatim>\<open>params\<close> object is a finite map from property names to values.
\<close>

type_synonym ref = nat

type_synonym 'v params = "string \<rightharpoonup> 'v"

text \<open>
  A slot of a JavaScript array: a hole (left by an assignment beyond the length), an explicit
  \<^verbatim>\<open>undefined\<close>, or a reference to an object.
\<close>

datatype slot = Hole | Undefined | Ref ref

text \<open>
  An object that is a \<^verbatim>\<open>NavigationRoute\<close>, a \<^verbatim>\<open>NavigationState\<close>, or both (the route of a nested
  router). An absent property is \<open>None\<close>. An index is a natural number: the numbers that are
  no array index (negative or fractional) are outside the model.
\<close>

record 'v obj =
  key :: "string option"
  routeName :: "string option"
  params :: "'v params option"
  index :: "nat option"
  routes :: "slot list option"

definition empty_obj :: "'v obj" where
  "empty_obj = \<lparr>key = None, routeName = None, params = None, index = None, routes = None\<rparr>"

record 'v heap =
  objs :: "ref \<Rightarrow> 'v obj"
  lim :: ref

definition empty_heap :: "'v heap" where
  "empty_heap = \<lparr>objs = (\<lambda>_. empty_obj), lim = 0\<rparr>"

text \<open>An object literal allocates a fresh cell; its reference differs from every earlier one.\<close>

definition alloc :: "'v obj \<Rightarrow> 'v heap \<Rightarrow> ref \<times> 'v heap" where
  "alloc ob h = (lim h, h\<lparr>objs := (objs h)(lim h := ob), lim := Suc (lim h)\<rparr>)"

text \<open>Property assignment on an existing object (\<^verbatim>\<open>state.routes = ...\<close>).\<close>

definition assign_routes :: "ref \<Rightarrow> slot list \<Rightarrow> 'v heap \<Rightarrow> 'v heap" where
  "assign_routes r rs h = h\<lparr>objs := (objs h)(r := (objs h r)\<lparr>routes := Some rs\<rparr>)\<rparr>"

datatype error = TypeError | InvariantViolation

text \<open>
  An action is an object whose properties the reducer reads whatever the \<^verbatim>\<open>type\<close> is
  (\<^verbatim>\<open>action.params\<close>, \<^verbatim>\<open>action.action\<close>, \<^verbatim>\<open>action.key\<close>, \<^verbatim>\<open>action.routeName\<close>), so it is one constructor
  with optional properties and a type tag. \<open>OTHER\<close> stands for any type string that is not
  one of the five the reducer tests.
\<close>

datatype atype = INIT | NAVIGATE | BACK | SET_PARAMS | PASS | OTHER string

datatype 'v action =
  Action (a_type: atype) (a_routeName: "string option") (a_key: "string option")
    (a_params: "'v params option") (a_action: "'v action option")

text \<open>
  The capability of a nested router, as the tab router uses it. The reducer of a nested router
  may allocate, assign and throw, so it maps a store to an error or a result and a store.
  \<^verbatim>\<open>getActionForPathAndParams\<close> is tested for presence, so it is optional.
\<close>

record 'v router =
  getStateForAction_of :: "'v action \<Rightarrow> ref option \<Rightarrow> 'v heap \<Rightarrow> error + (ref option \<times> 'v heap)"
  getPathAndParamsForState_of ::
    "ref \<Rightarrow> 'v heap \<Rightarrow> error + (string option \<times> 'v params option)"
  getActionForPathAndParams_of ::
    "(string \<Rightarrow> 'v params option \<Rightarrow> error + 'v action option) option"

text \<open>The arguments of the factory: the route map (in key order) and the options.\<close>

record 'v screen =
  router :: "'v router option"

record 'v routeConfig =
  screen :: "'v screen option"
  path :: "string option"

record tabRouterConfig =
  config_order :: "string list option"
  config_paths :: "(string \<rightharpoonup> string) option"
  config_initialRouteName :: "string option"
  config_backBehavior :: "string option"

text \<open>
  The constants the factory closes over (lines 33 to 49). \<^verbatim>\<open>paths\<close> and \<^verbatim>\<open>tabRouters\<close> are what the
  lookups \<^verbatim>\<open>paths[name]\<close> and \<^verbatim>\<open>tabRouters[name]\<close> give: \<^verbatim>\<open>undefined\<close> is \<open>None\<close>, \<^verbatim>\<open>null\<close> is
  \<open>Some None\<close>, and a property that \<^verbatim>\<open>tabRouters\<close> inherits is found like one of its own.
\<close>

record 'v tabRouter =
  routeConfigs :: "(string \<times> 'v routeConfig) list"
  order :: "string list"
  paths :: "string \<rightharpoonup> string"
  initialRouteName :: "string option"
  initialRouteIndex :: nat
  shouldBackNavigateToInitialRoute :: bool
  tabRouters :: "string \<rightharpoonup> 'v router option"


section \<open>JavaScript primitives used by the module\<close>

text \<open>
  The string a possibly undefined string converts to: the property name under which \<^verbatim>\<open>o[k]\<close>
  looks up \<^verbatim>\<open>k\<close>, and what a template literal prints.
\<close>

definition js_String :: "string option \<Rightarrow> string" where
  "js_String k = (case k of None \<Rightarrow> ''undefined'' | Some s \<Rightarrow> s)"

text \<open>\<^verbatim>\<open>xs[i]\<close> on an array without holes, such as \<^verbatim>\<open>order\<close>.\<close>

definition list_get :: "'a list \<Rightarrow> nat option \<Rightarrow> 'a option" where
  "list_get xs i =
     (case i of None \<Rightarrow> None | Some n \<Rightarrow> (if n < length xs then Some (xs ! n) else None))"

text \<open>Object spread of a possibly absent \<^verbatim>\<open>params\<close> object: \<^verbatim>\<open>{...p}\<close>.\<close>

definition spread :: "'v params option \<Rightarrow> 'v params" where
  "spread p = (case p of None \<Rightarrow> Map.empty | Some m \<Rightarrow> m)"

text \<open>Object spread of a possibly null object reference: the properties it copies.\<close>

definition spread_obj :: "ref option \<Rightarrow> 'v heap \<Rightarrow> 'v obj" where
  "spread_obj r h = (case r of None \<Rightarrow> empty_obj | Some x \<Rightarrow> objs h x)"

text \<open>\<^verbatim>\<open>xs[i]\<close>: undefined for an undefined or out-of-range index, a hole or an undefined slot.\<close>

definition arr_get :: "slot list \<Rightarrow> nat option \<Rightarrow> ref option" where
  "arr_get xs i =
     (case i of None \<Rightarrow> None
      | Some n \<Rightarrow> (if n < length xs then (case xs ! n of Ref r \<Rightarrow> Some r | _ \<Rightarrow> None) else None))"

text \<open>
  \<^verbatim>\<open>xs[i] = v\<close>: beyond the length the array grows and the slots in between are holes; an
  undefined index sets a property that is no element.
\<close>

definition arr_set :: "slot list \<Rightarrow> nat option \<Rightarrow> ref \<Rightarrow> slot list" where
  "arr_set xs i v =
     (case i of None \<Rightarrow> xs
      | Some n \<Rightarrow> (if n < length xs then xs[n := Ref v]
                   else xs @ replicate (n - length xs) Hole @ [Ref v]))"

text \<open>\<^verbatim>\<open>[...xs]\<close>: a copy in which holes have become undefined.\<close>

definition arr_copy :: "slot list \<Rightarrow> slot list" where
  "arr_copy xs = map (\<lambda>s. if s = Hole then Undefined else s) xs"

text \<open>\<^verbatim>\<open>xs.indexOf(x)\<close>, with \<open>None\<close> for \<^verbatim>\<open>-1\<close>; the second argument is the position reached.\<close>

fun indexOf_from :: "'a list \<Rightarrow> 'a \<Rightarrow> nat \<Rightarrow> nat option" where
  "indexOf_from [] x i = None"
| "indexOf_from (y # ys) x i = (if y = x then Some i else indexOf_from ys x (Suc i))"

definition indexOf :: "'a list \<Rightarrow> 'a \<Rightarrow> nat option" where
  "indexOf xs x = indexOf_from xs x 0"

text \<open>
  An object written as a literal inherits the properties of \<^verbatim>\<open>Object.prototype\<close>: \<^verbatim>\<open>o[name]\<close> finds
  them for these names when \<^verbatim>\<open>o\<close> has no property of its own with that name.
\<close>

definition objectPrototypeNames :: "string list" where
  "objectPrototypeNames =
     [''constructor'', ''__defineGetter__'', ''__defineSetter__'', ''hasOwnProperty'',
      ''__lookupGetter__'', ''__lookupSetter__'', ''isPrototypeOf'', ''propertyIsEnumerable'',
      ''toString'', ''valueOf'', ''__proto__'', ''toLocaleString'']"

text \<open>
  The value of an inherited property, where the module takes it for a nested router: a function
  (for \<^verbatim>\<open>__proto__\<close> the prototype object). It is neither \<^verbatim>\<open>undefined\<close> nor \<^verbatim>\<open>null\<close> and it is truthy,
  but it has none of the methods of a router: \<^verbatim>\<open>getActionForPathAndParams\<close> is absent, and
  calling \<^verbatim>\<open>getStateForAction\<close> or \<^verbatim>\<open>getPathAndParamsForState\<close> on it throws.
\<close>

definition inheritedValue :: "'v router" where
  "inheritedValue =
     \<lparr>getStateForAction_of = (\<lambda>a s h. Inl TypeError),
      getPathAndParamsForState_of = (\<lambda>r h. Inl TypeError),
      getActionForPathAndParams_of = None\<rparr>"

text \<open>\<^verbatim>\<open>state.routes\<close> of the object at a reference, for a use that dereferences it.\<close>

definition routes_of :: "'v heap \<Rightarrow> ref \<Rightarrow> error + slot list" where
  "routes_of h state = (case routes (objs h state) of None \<Rightarrow> Inl TypeError | Some rs \<Rightarrow> Inr rs)"

section \<open>Collaborators that are not part of the module\<close>

text \<open>
  Modelled from the spec: \<^verbatim>\<open>validateRouteConfigMap\<close> is imported from another file. The spec says
  it validates the route map at construction (duplicate route names, malformed path values)
  and fails fatally. A path is a string or absent in this model, so what is left is the test
  for duplicate names.
\<close>

definition validateRouteConfigMap :: "(string \<times> 'v routeConfig) list \<Rightarrow> error + unit" where
  "validateRouteConfigMap rcs =
     (if distinct (map fst rcs) then Inr () else Inl InvariantViolation)"

text \<open>
  Modelled from the spec: \<^verbatim>\<open>NavigationActions.mapDeprecatedActionAndWarn\<close> is imported. The spec
  says it maps deprecated action shapes to the canonical variants; the actions of this model
  are the canonical variants, which it leaves as they are.
\<close>

definition mapDeprecatedActionAndWarn :: "'v action \<Rightarrow> 'v action" where
  "mapDeprecatedActionAndWarn action = action"

text \<open>
  Modelled from the spec: the action creators \<^verbatim>\<open>NavigationActions.init\<close> and
  \<^verbatim>\<open>NavigationActions.navigate\<close> are imported; they build the \<open>Init{params?}\<close> and
  \<open>Navigate{routeName}\<close> variants of the spec's action type.
\<close>

definition init :: "'v params option \<Rightarrow> 'v action" where
  "init p = Action INIT None None p None"

definition navigate :: "string \<Rightarrow> 'v action" where
  "navigate name = Action NAVIGATE (Some name) None None None"

text \<open>
  Modelled from the spec: \<^verbatim>\<open>StateUtils.indexOf\<close> and \<^verbatim>\<open>StateUtils.indexOfByName\<close> are imported.
  The spec says the Pass branch locates the target route by \<^verbatim>\<open>action.key\<close> if present, else by
  matching \<^verbatim>\<open>routeName\<close>: the position of the first route of \<^verbatim>\<open>state.routes\<close> with that key, or
  that name, and \<^verbatim>\<open>-1\<close> (here \<open>None\<close>) when there is none. Reading a property of an undefined
  slot is a TypeError.
\<close>

fun route_props :: "('v obj \<Rightarrow> string option) \<Rightarrow> 'v heap \<Rightarrow> slot list \<Rightarrow> error + slot list" where
  "route_props f h [] = Inr []"
| "route_props f h (Undefined # rs) = Inl TypeError"
| "route_props f h (s # rs) =
     (case route_props f h rs of Inl e \<Rightarrow> Inl e | Inr ps \<Rightarrow> Inr (s # ps))"

fun indexOf_prop ::
  "('v obj \<Rightarrow> string option) \<Rightarrow> 'v heap \<Rightarrow> slot list \<Rightarrow> string option \<Rightarrow> nat \<Rightarrow> nat option" where
  "indexOf_prop f h [] x i = None"
| "indexOf_prop f h (Ref r # rs) x i =
     (if f (objs h r) = x then Some i else indexOf_prop f h rs x (Suc i))"
| "indexOf_prop f h (s # rs) x i = indexOf_prop f h rs x (Suc i)"

definition StateUtils_indexOf :: "'v heap \<Rightarrow> ref \<Rightarrow> string option \<Rightarrow> error + nat option" where
  "StateUtils_indexOf h state k =
     (case routes_of h state of Inl e \<Rightarrow> Inl e
      | Inr rs \<Rightarrow> (case route_props key h rs of Inl e \<Rightarrow> Inl e
                  | Inr ps \<Rightarrow> Inr (indexOf_prop key h ps k 0)))"

definition StateUtils_indexOfByName :: "'v heap \<Rightarrow> ref \<Rightarrow> string option \<Rightarrow> error + nat option" where
  "StateUtils_indexOfByName h state name =
     (case routes_of h state of Inl e \<Rightarrow> Inl e
      | Inr rs \<Rightarrow> (case route_props routeName h rs of Inl e \<Rightarrow> Inl e
                  | Inr ps \<Rightarrow> Inr (indexOf_prop routeName h ps name 0)))"

text \<open>
  Modelled from the spec: \<^verbatim>\<open>StateUtils.replaceAtIndex\<close> is imported. The spec says the Pass
  branch replaces the slot of the target route. Its result is only spread into the object the
  branch returns, so it is modelled by the property values of that result.
\<close>

definition StateUtils_replaceAtIndex :: "'v obj \<Rightarrow> nat \<Rightarrow> ref \<Rightarrow> 'v obj" where
  "StateUtils_replaceAtIndex st i route =
     (case routes st of None \<Rightarrow> st
      | Some rs \<Rightarrow> st\<lparr>routes := Some (arr_set rs (Some i) route)\<rparr>)"

text \<open>
  Modelled from the spec: \<^verbatim>\<open>getScreenForRouteName\<close> is imported. The spec says it maps a route
  name to its registered screen and fails fatally when there is none.
\<close>

definition getScreenForRouteName ::
  "(string \<times> 'v routeConfig) list \<Rightarrow> string option \<Rightarrow> error + 'v screen" where
  "getScreenForRouteName rcs name =
     (case name of None \<Rightarrow> Inl InvariantViolation
      | Some n \<Rightarrow> (case map_of rcs n of None \<Rightarrow> Inl InvariantViolation
                  | Some rc \<Rightarrow> (case screen rc of None \<Rightarrow> Inl InvariantViolation
                               | Some s \<Rightarrow> Inr s)))"

section \<open>The factory (lines 26 to 55)\<close>

text \<open>
  \<^verbatim>\<open>routeConfigs[routeName]\<close> (line 41). The route map is an object, so for a name it lacks the
  lookup finds an inherited property, if there is one: a value with neither a \<^verbatim>\<open>path\<close> nor a
  \<^verbatim>\<open>screen\<close>. For any other name it is \<^verbatim>\<open>undefined\<close>.
\<close>

definition routeConfigAt :: "(string \<times> 'v routeConfig) list \<Rightarrow> string \<Rightarrow> 'v routeConfig option" where
  "routeConfigAt rcs name =
     (case map_of rcs name of
        Some routeConfig \<Rightarrow> Some routeConfig
      | None \<Rightarrow> (if name \<in> set objectPrototypeNames then Some \<lparr>screen = None, path = None\<rparr>
                 else None))"

text \<open>
  \<^verbatim>\<open>tabRouters[name]\<close> after the factory has run: a property the loop has set, or else, as long
  as \<^verbatim>\<open>tabRouters\<close> still has its prototype, an inherited one.
\<close>

definition tabRoutersAt ::
  "(string \<rightharpoonup> 'v router option) \<Rightarrow> bool \<Rightarrow> string \<rightharpoonup> 'v router option" where
  "tabRoutersAt own proto name =
     (case own name of
        Some v \<Rightarrow> Some v
      | None \<Rightarrow> (if proto \<and> name \<in> set objectPrototypeNames then Some (Some inheritedValue)
                 else None))"

text \<open>
  \<^verbatim>\<open>paths[name]\<close> after the factory has run, for the names the module looks up, which are names
  of \<^verbatim>\<open>order\<close>: the loop has set each of them, except \<^verbatim>\<open>__proto__\<close>, whose assignment the inherited
  setter ignores; its lookup gives the prototype object, which prints as \<^verbatim>\<open>[object Object]\<close>.
\<close>

definition pathsAt :: "(string \<rightharpoonup> string) \<Rightarrow> string \<rightharpoonup> string" where
  "pathsAt own name =
     (case own name of
        Some p \<Rightarrow> Some p
      | None \<Rightarrow> (if name = ''__proto__'' then Some ''[object Object]'' else None))"

text \<open>
  \<^verbatim>\<open>order.forEach\<close> (lines 40 to 49): the declared path of each route (its name when the route
  declares none) and its nested router (\<^verbatim>\<open>null\<close>, here \<open>Some None\<close>, when the screen has none). A
  name of \<^verbatim>\<open>order\<close> for which the route map gives \<^verbatim>\<open>undefined\<close> makes \<^verbatim>\<open>routeConfig.path\<close> throw.
  An assignment creates or overwrites a property of the object, except for the name
  \<^verbatim>\<open>__proto__\<close> while the object inherits the setter of that name: the setter ignores a string,
  and given \<^verbatim>\<open>null\<close> (line 45) it removes the prototype of \<^verbatim>\<open>tabRouters\<close>, after which nothing is
  inherited and the assignment of line 47 creates a property. The flag says whether
  \<^verbatim>\<open>tabRouters\<close> still has its prototype.
\<close>

fun forEachRoute ::
  "(string \<times> 'v routeConfig) list \<Rightarrow> string list \<Rightarrow>
   (string \<rightharpoonup> string) \<times> (string \<rightharpoonup> 'v router option) \<times> bool \<Rightarrow>
   error + (string \<rightharpoonup> string) \<times> (string \<rightharpoonup> 'v router option) \<times> bool" where
  "forEachRoute rcs [] acc = Inr acc"
| "forEachRoute rcs (name # rest) (ps, trs, proto) =
     (case routeConfigAt rcs name of
        None \<Rightarrow> Inl TypeError
      | Some routeConfig \<Rightarrow>
          (let ps1 = (if name = ''__proto__'' \<and> ps name = None then ps
                      else ps(name \<mapsto> (case path routeConfig of Some p \<Rightarrow> p | None \<Rightarrow> name)));
               trs1 = (if name = ''__proto__'' \<and> proto then trs else trs(name \<mapsto> None));
               proto1 = (proto \<and> name \<noteq> ''__proto__'');
               trs2 = (case screen routeConfig of
                         None \<Rightarrow> trs1
                       | Some s \<Rightarrow> (case router s of None \<Rightarrow> trs1 | Some r \<Rightarrow> trs1(name \<mapsto> Some r)))
           in forEachRoute rcs rest (ps1, trs2, proto1)))"

definition TabRouter ::
  "(string \<times> 'v routeConfig) list \<Rightarrow> tabRouterConfig \<Rightarrow> error + 'v tabRouter" where
  "TabRouter rcs config =
     (case validateRouteConfigMap rcs of
        Inl e \<Rightarrow> Inl e
      | Inr _ \<Rightarrow>
          (let order' = (case config_order config of Some xs \<Rightarrow> xs | None \<Rightarrow> map fst rcs);
               paths' = (case config_paths config of Some ps \<Rightarrow> ps | None \<Rightarrow> Map.empty);
               first = (case order' of [] \<Rightarrow> None | n # _ \<Rightarrow> Some n);
               initialRouteName' =
                 (case config_initialRouteName config of
                    Some n \<Rightarrow> (if n \<noteq> [] then Some n else first)
                  | None \<Rightarrow> first);
               initialRouteIndex' =
                 (case initialRouteName' of None \<Rightarrow> None | Some n \<Rightarrow> indexOf order' n);
               backBehavior =
                 (case config_backBehavior config of
                    Some b \<Rightarrow> (if b \<noteq> [] then b else ''initialRoute'')
                  | None \<Rightarrow> ''initialRoute'')
           in case forEachRoute rcs order' (paths', Map.empty, True) of
                Inl e \<Rightarrow> Inl e
              | Inr (ps, trs, proto) \<Rightarrow>
                  (case initialRouteIndex' of
                     None \<Rightarrow> Inl InvariantViolation
                   | Some i \<Rightarrow>
                       Inr \<lparr>routeConfigs = rcs, order = order', paths = pathsAt ps,
                            initialRouteName = initialRouteName', initialRouteIndex = i,
                            shouldBackNavigateToInitialRoute = (backBehavior = ''initialRoute''),
                            tabRouters = tabRoutersAt trs proto\<rparr>)))"


section \<open>The reducer \<^verbatim>\<open>getStateForAction\<close> (lines 56 to 282)\<close>

text \<open>
  Each block of the function is one definition. A block that can end the function returns
  \<open>Some result\<close> (the value returned, \<open>None\<close> in it for \<^verbatim>\<open>null\<close>) and \<open>None\<close> when control falls
  through to the next block.
\<close>

text \<open>
  Lines 66 to 86, \<^verbatim>\<open>order.map\<close>: one route per name. A route with a nested router is a copy of
  the state that router builds for an Init action carrying the params of the action, with
  \<^verbatim>\<open>key\<close> and \<^verbatim>\<open>routeName\<close> set; any other route has only these two properties.
\<close>

fun initialRoutes ::
  "'v tabRouter \<Rightarrow> 'v action \<Rightarrow> string list \<Rightarrow> 'v heap \<Rightarrow> error + (slot list \<times> 'v heap)" where
  "initialRoutes tr action [] h = Inr ([], h)"
| "initialRoutes tr action (name # rest) h =
     (case (case tabRouters tr name of
              Some (Some tabRouter) \<Rightarrow>
                (case getStateForAction_of tabRouter (init (a_params action)) None h of
                   Inl e \<Rightarrow> Inl e
                 | Inr (child, h1) \<Rightarrow>
                     Inr (alloc ((spread_obj child h1)\<lparr>key := Some name, routeName := Some name\<rparr>) h1))
            | _ \<Rightarrow> Inr (alloc (empty_obj\<lparr>key := Some name, routeName := Some name\<rparr>) h)) of
        Inl e \<Rightarrow> Inl e
      | Inr (r, h2) \<Rightarrow>
          (case initialRoutes tr action rest h2 of
             Inl e \<Rightarrow> Inl e
           | Inr (rs, h3) \<Rightarrow> Inr (Ref r # rs, h3)))"

text \<open>Lines 63 to 92: the state the rest of the function works on.\<close>

definition defaultState ::
  "'v tabRouter \<Rightarrow> 'v action \<Rightarrow> ref option \<Rightarrow> 'v heap \<Rightarrow> error + (ref \<times> 'v heap)" where
  "defaultState tr action inputState h =
     (case inputState of
        Some state \<Rightarrow> Inr (state, h)
      | None \<Rightarrow>
          (case initialRoutes tr action (order tr) h of
             Inl e \<Rightarrow> Inl e
           | Inr (rs, h1) \<Rightarrow>
               Inr (alloc (empty_obj\<lparr>index := Some (initialRouteIndex tr), routes := Some rs\<rparr>) h1)))"

text \<open>
  Lines 98 to 107, \<^verbatim>\<open>state.routes.map\<close>: a new route object for every route, whatever its
  params are. \<^verbatim>\<open>map\<close> skips holes; \<^verbatim>\<open>route.params\<close> of an undefined slot throws.
\<close>

fun mergeRoutes :: "'v params \<Rightarrow> slot list \<Rightarrow> 'v heap \<Rightarrow> error + (slot list \<times> 'v heap)" where
  "mergeRoutes p [] h = Inr ([], h)"
| "mergeRoutes p (Hole # rs) h =
     (case mergeRoutes p rs h of Inl e \<Rightarrow> Inl e | Inr (rs', h') \<Rightarrow> Inr (Hole # rs', h'))"
| "mergeRoutes p (Undefined # rs) h = Inl TypeError"
| "mergeRoutes p (Ref r # rs) h =
     (case alloc ((objs h r)\<lparr>params := Some (spread (params (objs h r)) ++ p)\<rparr>) h of
        (r', h1) \<Rightarrow>
          (case mergeRoutes p rs h1 of Inl e \<Rightarrow> Inl e | Inr (rs', h') \<Rightarrow> Inr (Ref r' # rs', h')))"

text \<open>Lines 94 to 109: the new array is assigned to the \<^verbatim>\<open>routes\<close> property of \<^verbatim>\<open>state\<close>.\<close>

definition initAction :: "'v action \<Rightarrow> ref \<Rightarrow> 'v heap \<Rightarrow> error + 'v heap" where
  "initAction action state h =
     (if a_type action = INIT then
        (case a_params action of
           None \<Rightarrow> Inr h
         | Some p \<Rightarrow>
             (case routes_of h state of
                Inl e \<Rightarrow> Inl e
              | Inr rs \<Rightarrow>
                  (case mergeRoutes p rs h of
                     Inl e \<Rightarrow> Inl e
                   | Inr (rs', h1) \<Rightarrow> Inr (assign_routes state rs' h1))))
      else Inr h)"

text \<open>
  Lines 111 to 138. \<^verbatim>\<open>tabRouters[action.routeName]\<close> is \<^verbatim>\<open>null\<close> (here \<open>Some None\<close>) for a route of
  \<^verbatim>\<open>order\<close> without a nested router, and \<^verbatim>\<open>undefined\<close> (here \<open>None\<close>) for a name that is neither in
  \<^verbatim>\<open>order\<close> nor inherited; the test is \<^verbatim>\<open>!== undefined\<close>, so \<^verbatim>\<open>null\<close> and an inherited value pass it
  and \<^verbatim>\<open>childRouter.getStateForAction\<close> then throws. An empty \<^verbatim>\<open>action.key\<close> is falsy.
\<close>

definition passAction ::
  "'v tabRouter \<Rightarrow> 'v action \<Rightarrow> ref \<Rightarrow> 'v heap \<Rightarrow> error + (ref option option \<times> 'v heap)" where
  "passAction tr action state h =
     (if a_type action = PASS then
        (case a_action action of
           None \<Rightarrow> Inr (None, h)
         | Some inner \<Rightarrow>
             (case tabRouters tr (js_String (a_routeName action)) of
                None \<Rightarrow> Inr (None, h)
              | Some childRouter \<Rightarrow>
                  (case (if a_key action \<noteq> None \<and> a_key action \<noteq> Some []
                         then StateUtils_indexOf h state (a_key action)
                         else StateUtils_indexOfByName h state (a_routeName action)) of
                     Inl e \<Rightarrow> Inl e
                   | Inr None \<Rightarrow> Inr (None, h)
                   | Inr (Some childIndex) \<Rightarrow>
                       (case routes_of h state of
                          Inl e \<Rightarrow> Inl e
                        | Inr rs \<Rightarrow>
                            (case arr_get rs (Some childIndex) of
                               None \<Rightarrow> Inr (None, h)
                             | Some childRoute \<Rightarrow>
                                 (case childRouter of
                                    None \<Rightarrow> Inl TypeError
                                  | Some r \<Rightarrow>
                                      (case getStateForAction_of r inner (Some childRoute) h of
                                         Inl e \<Rightarrow> Inl e
                                       | Inr (None, h1) \<Rightarrow> Inr (None, h1)
                                       | Inr (Some route, h1) \<Rightarrow>
                                           (case alloc ((StateUtils_replaceAtIndex (objs h1 state)
                                                          childIndex route)
                                                        \<lparr>index := index (objs h1 state)\<rparr>) h1 of
                                              (r', h2) \<Rightarrow> Inr (Some (Some r'), h2)))))))))
      else Inr (None, h))"

text \<open>
  Lines 140 to 159: the router of the active tab sees \<^verbatim>\<open>action.action || action\<close> first.
  \<open>activeTabLastState\<close> is \<^verbatim>\<open>state.routes[state.index]\<close>, read at line 141.
\<close>

definition forwarded :: "'v action \<Rightarrow> 'v action" where
  "forwarded action = (case a_action action of Some inner \<Rightarrow> inner | None \<Rightarrow> action)"

definition activeTabRouter_of :: "'v tabRouter \<Rightarrow> 'v heap \<Rightarrow> ref \<Rightarrow> 'v router option" where
  "activeTabRouter_of tr h state =
     (case tabRouters tr (js_String (list_get (order tr) (index (objs h state)))) of
        Some (Some r) \<Rightarrow> Some r
      | _ \<Rightarrow> None)"

definition activeTab ::
  "'v tabRouter \<Rightarrow> 'v action \<Rightarrow> ref option \<Rightarrow> ref \<Rightarrow> ref option \<Rightarrow> 'v heap \<Rightarrow>
   error + (ref option option \<times> 'v heap)" where
  "activeTab tr action inputState state activeTabLastState h =
     (case activeTabRouter_of tr h state of
        None \<Rightarrow> Inr (None, h)
      | Some activeTabRouter \<Rightarrow>
          (case getStateForAction_of activeTabRouter (forwarded action) activeTabLastState h of
             Inl e \<Rightarrow> Inl e
           | Inr (activeTabState, h1) \<Rightarrow>
               (if activeTabState = None \<and> inputState \<noteq> None then Inr (Some None, h1)
                else
                  (case activeTabState of
                     None \<Rightarrow> Inr (None, h1)
                   | Some new \<Rightarrow>
                       (if activeTabState \<noteq> activeTabLastState then
                          (case routes_of h1 state of
                             Inl e \<Rightarrow> Inl e
                           | Inr rs \<Rightarrow>
                               (case alloc ((objs h1 state)
                                        \<lparr>routes := Some (arr_set (arr_copy rs)
                                                          (index (objs h1 state)) new)\<rparr>) h1 of
                                  (r', h2) \<Rightarrow> Inr (Some (Some r'), h2)))
                        else Inr (None, h1))))))"


text \<open>
  Lines 161 to 172. \<open>isBackEligible\<close> is computed for every action; with a key in the action it
  reads \<^verbatim>\<open>activeTabLastState.key\<close>, which throws when there is no active route.
\<close>

definition isBackEligible :: "'v action \<Rightarrow> ref option \<Rightarrow> 'v heap \<Rightarrow> error + bool" where
  "isBackEligible action activeTabLastState h =
     (case a_key action of
        None \<Rightarrow> Inr True
      | Some k \<Rightarrow>
          (case activeTabLastState of
             None \<Rightarrow> Inl TypeError
           | Some r \<Rightarrow> Inr (key (objs h r) = Some k)))"

text \<open>
  Lines 176 to 182: \<^verbatim>\<open>order.find\<close> stops at the first name equal to \<^verbatim>\<open>action.routeName\<close> and its
  callback stores the position; \<^verbatim>\<open>find\<close> returns the name found, and \<^verbatim>\<open>!!\<close> of a name is false
  for the empty string.
\<close>

definition findTab :: "string list \<Rightarrow> string option \<Rightarrow> nat option" where
  "findTab names name = (case name of None \<Rightarrow> None | Some n \<Rightarrow> indexOf names n)"

definition didNavigate_of :: "string list \<Rightarrow> string option \<Rightarrow> bool" where
  "didNavigate_of names name = (findTab names name \<noteq> None \<and> name \<noteq> Some [])"

text \<open>Lines 183 to 212, entered when \<open>didNavigate\<close> holds; \<open>i\<close> is \<open>activeTabIndex\<close>.\<close>

definition navigateTo ::
  "'v tabRouter \<Rightarrow> 'v action \<Rightarrow> ref \<Rightarrow> nat \<Rightarrow> 'v heap \<Rightarrow> error + (ref option option \<times> 'v heap)" where
  "navigateTo tr action state i h =
     (case routes_of h state of
        Inl e \<Rightarrow> Inl e
      | Inr rs \<Rightarrow>
          (let childState = arr_get rs (Some i);
               tabRouter = (case tabRouters tr (js_String (a_routeName action)) of
                              Some (Some r) \<Rightarrow> Some r | _ \<Rightarrow> None)
           in case (case a_action action of
                      Some inner \<Rightarrow>
                        (case tabRouter of
                           Some r \<Rightarrow> getStateForAction_of r inner childState h
                         | None \<Rightarrow> Inr (None, h))
                    | None \<Rightarrow>
                        (if tabRouter = None \<and> a_params action \<noteq> None then
                           (case childState of
                              None \<Rightarrow> Inl TypeError
                            | Some c \<Rightarrow>
                                (case alloc ((objs h c)\<lparr>params :=
                                         Some (spread (params (objs h c)) ++ spread (a_params action))\<rparr>) h of
                                   (r', h1) \<Rightarrow> Inr (Some r', h1)))
                         else Inr (None, h))) of
                Inl e \<Rightarrow> Inl e
              | Inr (newChildState, h1) \<Rightarrow>
                  (case newChildState of
                     None \<Rightarrow> Inr (None, h1)
                   | Some new \<Rightarrow>
                       (if newChildState \<noteq> childState then
                          (case routes_of h1 state of
                             Inl e \<Rightarrow> Inl e
                           | Inr rs1 \<Rightarrow>
                               (case alloc ((objs h1 state)
                                        \<lparr>index := Some i,
                                         routes := Some (arr_set (arr_copy rs1) (Some i) new)\<rparr>) h1 of
                                  (r', h2) \<Rightarrow> Inr (Some (Some r'), h2)))
                        else Inr (None, h1)))))"

text \<open>
  Lines 215 to 218, \<^verbatim>\<open>state.routes.find\<close>: the first route whose key is \<^verbatim>\<open>action.key\<close>. \<^verbatim>\<open>find\<close>
  visits holes as undefined, and \<^verbatim>\<open>route.key\<close> of undefined throws.
\<close>

fun findRoute :: "'v heap \<Rightarrow> slot list \<Rightarrow> string option \<Rightarrow> error + ref option" where
  "findRoute h [] k = Inr None"
| "findRoute h (Ref r # rs) k = (if key (objs h r) = k then Inr (Some r) else findRoute h rs k)"
| "findRoute h (s # rs) k = Inl TypeError"

text \<open>Lines 214 to 234.\<close>

definition setParams ::
  "'v action \<Rightarrow> ref \<Rightarrow> 'v heap \<Rightarrow> error + (ref option option \<times> 'v heap)" where
  "setParams action state h =
     (case routes_of h state of
        Inl e \<Rightarrow> Inl e
      | Inr rs \<Rightarrow>
          (case findRoute h rs (a_key action) of
             Inl e \<Rightarrow> Inl e
           | Inr None \<Rightarrow> Inr (None, h)
           | Inr (Some lastRoute) \<Rightarrow>
               (case alloc ((objs h lastRoute)\<lparr>params :=
                        Some (spread (params (objs h lastRoute)) ++ spread (a_params action))\<rparr>) h of
                  (new, h1) \<Rightarrow>
                    (case alloc ((objs h1 state)
                             \<lparr>routes := Some (arr_set (arr_copy rs) (indexOf rs (Ref lastRoute)) new)\<rparr>)
                            h1 of
                       (r', h2) \<Rightarrow> Inr (Some (Some r'), h2)))))"

text \<open>Lines 161 to 244.\<close>

definition tabChange ::
  "'v tabRouter \<Rightarrow> 'v action \<Rightarrow> ref option \<Rightarrow> ref \<Rightarrow> ref option \<Rightarrow> 'v heap \<Rightarrow>
   error + (ref option option \<times> 'v heap)" where
  "tabChange tr action inputState state activeTabLastState h =
     (case isBackEligible action activeTabLastState h of
        Inl e \<Rightarrow> Inl e
      | Inr eligible \<Rightarrow>
          (let afterBack =
                 (if a_type action = BACK \<and> eligible \<and> shouldBackNavigateToInitialRoute tr
                  then Some (initialRouteIndex tr) else index (objs h state));
               found = (if a_type action = NAVIGATE
                        then findTab (order tr) (a_routeName action) else None);
               activeTabIndex = (case found of Some i \<Rightarrow> Some i | None \<Rightarrow> afterBack);
               didNavigate = (a_type action = NAVIGATE
                              \<and> didNavigate_of (order tr) (a_routeName action))
           in case (case found of
                      Some i \<Rightarrow> (if didNavigate then navigateTo tr action state i h
                                 else Inr (None, h))
                    | None \<Rightarrow> Inr (None, h)) of
                Inl e \<Rightarrow> Inl e
              | Inr (Some result, h1) \<Rightarrow> Inr (Some result, h1)
              | Inr (None, h1) \<Rightarrow>
                  (case (if a_type action = SET_PARAMS then setParams action state h1
                         else Inr (None, h1)) of
                     Inl e \<Rightarrow> Inl e
                   | Inr (Some result, h2) \<Rightarrow> Inr (Some result, h2)
                   | Inr (None, h2) \<Rightarrow>
                       (if activeTabIndex \<noteq> index (objs h2 state) then
                          (case alloc ((objs h2 state)\<lparr>index := activeTabIndex\<rparr>) h2 of
                             (r', h3) \<Rightarrow> Inr (Some (Some r'), h3))
                        else if didNavigate \<and> inputState = None then Inr (Some (Some state), h2)
                        else if didNavigate then Inr (Some None, h2)
                        else Inr (None, h2)))))"

text \<open>
  Lines 250 to 271, \<^verbatim>\<open>order.find\<close> over the tabs other than the active one: \<open>i\<close> is the position of
  the first name of \<open>names\<close>. The result is the position found and the \<^verbatim>\<open>routes\<close> array it leaves,
  flagged when the array is a new copy.
\<close>

fun otherTabs ::
  "'v tabRouter \<Rightarrow> 'v action \<Rightarrow> nat option \<Rightarrow> slot list option \<Rightarrow> string list \<Rightarrow> nat \<Rightarrow> 'v heap \<Rightarrow>
   error + ((nat \<times> slot list option \<times> bool) option \<times> 'v heap)" where
  "otherTabs tr action idx rts [] i h = Inr (None, h)"
| "otherTabs tr action idx rts (tabId # rest) i h =
     (if Some i = idx then otherTabs tr action idx rts rest (Suc i) h
      else
        (case rts of
           None \<Rightarrow> Inl TypeError
         | Some rs \<Rightarrow>
             (case (case tabRouters tr tabId of
                      Some (Some tabRouter) \<Rightarrow>
                        getStateForAction_of tabRouter action (arr_get rs (Some i)) h
                    | _ \<Rightarrow> Inr (arr_get rs (Some i), h)) of
                Inl e \<Rightarrow> Inl e
              | Inr (tabState, h1) \<Rightarrow>
                  (case tabState of
                     None \<Rightarrow> Inr (Some (i, rts, False), h1)
                   | Some new \<Rightarrow>
                       (if tabState \<noteq> arr_get rs (Some i)
                        then Inr (Some (i, Some (arr_set (arr_copy rs) (Some i) new), True), h1)
                        else otherTabs tr action idx rts rest (Suc i) h1)))))"

text \<open>
  Lines 246 to 281. An array is a value in this model: the comparison \<^verbatim>\<open>routes !== state.routes\<close>
  holds when the loop copied the array, or when the elements differ.
\<close>

definition broadcast ::
  "'v tabRouter \<Rightarrow> 'v action \<Rightarrow> ref \<Rightarrow> 'v heap \<Rightarrow> error + (ref option \<times> 'v heap)" where
  "broadcast tr action state h =
     (case otherTabs tr action (index (objs h state)) (routes (objs h state)) (order tr) 0 h of
        Inl e \<Rightarrow> Inl e
      | Inr (found, h1) \<Rightarrow>
          (let idx' = (case found of Some (i, _, _) \<Rightarrow> Some i | None \<Rightarrow> index (objs h state));
               rts' = (case found of Some (_, rts, _) \<Rightarrow> rts | None \<Rightarrow> routes (objs h state));
               copied = (case found of Some (_, _, c) \<Rightarrow> c | None \<Rightarrow> False)
           in if idx' \<noteq> index (objs h1 state) \<or> copied \<or> rts' \<noteq> routes (objs h1 state) then
                (case alloc ((objs h1 state)\<lparr>index := idx', routes := rts'\<rparr>) h1 of
                   (r', h2) \<Rightarrow> Inr (Some r', h2))
              else Inr (Some state, h1)))"

definition getStateForAction ::
  "'v tabRouter \<Rightarrow> 'v action \<Rightarrow> ref option \<Rightarrow> 'v heap \<Rightarrow> error + (ref option \<times> 'v heap)" where
  "getStateForAction tr action0 inputState h =
     (let action = mapDeprecatedActionAndWarn action0
      in case defaultState tr action inputState h of
           Inl e \<Rightarrow> Inl e
         | Inr (state, h1) \<Rightarrow>
             (case initAction action state h1 of
                Inl e \<Rightarrow> Inl e
              | Inr h2 \<Rightarrow>
                  (case passAction tr action state h2 of
                     Inl e \<Rightarrow> Inl e
                   | Inr (Some result, h3) \<Rightarrow> Inr (result, h3)
                   | Inr (None, h3) \<Rightarrow>
                       (case routes_of h3 state of
                          Inl e \<Rightarrow> Inl e
                        | Inr rs \<Rightarrow>
                            (let activeTabLastState = arr_get rs (index (objs h3 state))
                             in case activeTab tr action inputState state activeTabLastState h3 of
                                  Inl e \<Rightarrow> Inl e
                                | Inr (Some result, h4) \<Rightarrow> Inr (result, h4)
                                | Inr (None, h4) \<Rightarrow>
                                    (case tabChange tr action inputState state
                                            activeTabLastState h4 of
                                       Inl e \<Rightarrow> Inl e
                                     | Inr (Some result, h5) \<Rightarrow> Inr (result, h5)
                                     | Inr (None, h5) \<Rightarrow> broadcast tr action state h5))))))"

section \<open>The path codec (lines 304 to 364)\<close>

definition getPathAndParamsForState ::
  "'v tabRouter \<Rightarrow> ref \<Rightarrow> 'v heap \<Rightarrow> error + (string option \<times> 'v params option)" where
  "getPathAndParamsForState tr state h =
     (case routes_of h state of
        Inl e \<Rightarrow> Inl e
      | Inr rs \<Rightarrow>
          (let route = arr_get rs (index (objs h state));
               name = list_get (order tr) (index (objs h state));
               subPath = paths tr (js_String name)
           in case getScreenForRouteName (routeConfigs tr) name of
                Inl e \<Rightarrow> Inl e
              | Inr scr \<Rightarrow>
                  (case route of
                     None \<Rightarrow> Inl TypeError
                   | Some rt \<Rightarrow>
                       (case router scr of
                          None \<Rightarrow> Inr (subPath, params (objs h rt))
                        | Some child \<Rightarrow>
                            (case getPathAndParamsForState_of child rt h of
                               Inl e \<Rightarrow> Inl e
                             | Inr (childPath, childParams) \<Rightarrow>
                                 Inr (if subPath \<noteq> None \<and> subPath \<noteq> Some []
                                      then Some (js_String subPath @ ''/'' @ js_String childPath)
                                      else childPath,
                                      case childParams of
                                        None \<Rightarrow> params (objs h rt)
                                      | Some cp \<Rightarrow> Some (spread (params (objs h rt)) ++ cp)))))))"

text \<open>
  Lines 333 to 338: \<^verbatim>\<open>parts[0]\<close> is the path up to its first slash; \<open>pathMatch\<close> is assigned
  \<^verbatim>\<open>false\<close> when it equals the declared path of the tab, and is \<^verbatim>\<open>false\<close> before.
\<close>

definition pathMatch_of :: "string \<Rightarrow> string option \<Rightarrow> bool" where
  "pathMatch_of p pathToTest =
     (if Some (takeWhile (\<lambda>c. c \<noteq> CHR ''/'') p) = pathToTest then False else False)"

text \<open>Lines 332 to 361, the function mapped over \<^verbatim>\<open>order\<close>.\<close>

definition actionForTab ::
  "'v tabRouter \<Rightarrow> string \<Rightarrow> 'v params option \<Rightarrow> string \<Rightarrow> error + 'v action option" where
  "actionForTab tr p ps tabId =
     (let pathMatch = pathMatch_of p (paths tr tabId);
          resolver = (case tabRouters tr tabId of
                        Some (Some tabRouter) \<Rightarrow> getActionForPathAndParams_of tabRouter
                      | _ \<Rightarrow> None)
      in case resolver of
           Some resolve \<Rightarrow>
             (case resolve p ps of
                Inl e \<Rightarrow> Inl e
              | Inr inner \<Rightarrow>
                  (if inner = None \<and> \<not> pathMatch then Inr None
                   else Inr (Some (Action NAVIGATE (Some tabId) None None inner))))
         | None \<Rightarrow> (if ps \<noteq> None then Inr None else Inr (Some (navigate tabId))))"

text \<open>\<^verbatim>\<open>order.map\<close> calls the function for every tab, so an error of any tab is the result.\<close>

fun mapTabs ::
  "'v tabRouter \<Rightarrow> string \<Rightarrow> 'v params option \<Rightarrow> string list \<Rightarrow> error + 'v action option list" where
  "mapTabs tr p ps [] = Inr []"
| "mapTabs tr p ps (tabId # rest) =
     (case actionForTab tr p ps tabId of
        Inl e \<Rightarrow> Inl e
      | Inr a \<Rightarrow> (case mapTabs tr p ps rest of Inl e \<Rightarrow> Inl e | Inr as \<Rightarrow> Inr (a # as)))"

definition getActionForPathAndParams ::
  "'v tabRouter \<Rightarrow> string \<Rightarrow> 'v params option \<Rightarrow> error + 'v action option" where
  "getActionForPathAndParams tr p ps =
     (case mapTabs tr p ps (order tr) of
        Inl e \<Rightarrow> Inl e
      | Inr as \<Rightarrow> Inr (case List.find (\<lambda>a. a \<noteq> None) as of Some a \<Rightarrow> a | None \<Rightarrow> None))"

text \<open>A tab router used as the nested router of a route of another router.\<close>

definition as_router :: "'v tabRouter \<Rightarrow> 'v router" where
  "as_router tr =
     \<lparr>getStateForAction_of = getStateForAction tr,
      getPathAndParamsForState_of = getPathAndParamsForState tr,
      getActionForPathAndParams_of = Some (getActionForPathAndParams tr)\<rparr>"


section \<open>Observations and properties of nested routers\<close>






text \<open>
  The state that the first reduction builds (lines 87 to 90), as long as nothing has replaced
  it: an allocated object whose index is the initial one and whose routes are one object for
  each name of \<^verbatim>\<open>order\<close>.
\<close>

definition first_state :: "'v tabRouter \<Rightarrow> 'v heap \<Rightarrow> ref \<Rightarrow> bool" where
  "first_state tr h st =
     (st < lim h \<and> index (objs h st) = Some (initialRouteIndex tr)
      \<and> (\<exists>rs. routes (objs h st) = Some (map Ref rs) \<and> length rs = length (order tr)))"

text \<open>
  The first reduction runs undisturbed when no block throws, when each block that calls nested
  routers (Pass, active tab, tab change, broadcast) leaves the object of the synthesized state
  as it was, and when the broadcast finds no tab whose router responds. The four predicates
  follow the function from a block on: each holds of the store in which the block starts.
\<close>

definition undisturbed_from_broadcast :: "'v tabRouter \<Rightarrow> 'v action \<Rightarrow> ref \<Rightarrow> 'v heap \<Rightarrow> bool" where
  "undisturbed_from_broadcast tr action state h =
     (case otherTabs tr action (index (objs h state)) (routes (objs h state)) (order tr) 0 h of
        Inl e \<Rightarrow> False
      | Inr (found, h1) \<Rightarrow> found = None \<and> objs h1 state = objs h state)"

definition undisturbed_from_tabChange ::
  "'v tabRouter \<Rightarrow> 'v action \<Rightarrow> ref \<Rightarrow> ref option \<Rightarrow> 'v heap \<Rightarrow> bool" where
  "undisturbed_from_tabChange tr action state activeTabLastState h =
     (case tabChange tr action None state activeTabLastState h of
        Inl e \<Rightarrow> False
      | Inr (result, h1) \<Rightarrow>
          objs h1 state = objs h state
          \<and> (result = None \<longrightarrow> undisturbed_from_broadcast tr action state h1))"

definition undisturbed_from_activeTab :: "'v tabRouter \<Rightarrow> 'v action \<Rightarrow> ref \<Rightarrow> 'v heap \<Rightarrow> bool" where
  "undisturbed_from_activeTab tr action state h =
     (case routes_of h state of
        Inl e \<Rightarrow> False
      | Inr rs \<Rightarrow>
          (case activeTab tr action None state (arr_get rs (index (objs h state))) h of
             Inl e \<Rightarrow> False
           | Inr (result, h1) \<Rightarrow>
               objs h1 state = objs h state
               \<and> (result = None \<longrightarrow>
                     undisturbed_from_tabChange tr action state (arr_get rs (index (objs h state))) h1)))"

definition undisturbed_first_reduction :: "'v tabRouter \<Rightarrow> 'v action \<Rightarrow> 'v heap \<Rightarrow> bool" where
  "undisturbed_first_reduction tr action0 h =
     (let action = mapDeprecatedActionAndWarn action0
      in case defaultState tr action None h of
           Inl e \<Rightarrow> False
         | Inr (state, h1) \<Rightarrow>
             (case initAction action state h1 of
                Inl e \<Rightarrow> False
              | Inr h2 \<Rightarrow>
                  (case passAction tr action state h2 of
                     Inl e \<Rightarrow> False
                   | Inr (result, h3) \<Rightarrow>
                       objs h3 state = objs h2 state
                       \<and> (result = None \<longrightarrow> undisturbed_from_activeTab tr action state h3))))"

section \<open>Example routers and states\<close>

definition plain :: "'v routeConfig" where
  "plain = \<lparr>screen = Some \<lparr>router = None\<rparr>, path = None\<rparr>"

definition nested :: "'v tabRouter \<Rightarrow> 'v routeConfig" where
  "nested tr = \<lparr>screen = Some \<lparr>router = Some (as_router tr)\<rparr>, path = None\<rparr>"

definition defaults :: tabRouterConfig where
  "defaults = \<lparr>config_order = None, config_paths = None, config_initialRouteName = None,
                config_backBehavior = None\<rparr>"

text \<open>The router the factory builds for two screens without nested routers.\<close>

definition leafTabs :: "string \<Rightarrow> string \<Rightarrow> 'v tabRouter" where
  "leafTabs a b =
     \<lparr>routeConfigs = [(a, plain), (b, plain)], order = [a, b],
      paths = pathsAt [a \<mapsto> a, b \<mapsto> b],
      initialRouteName = Some a, initialRouteIndex = 0, shouldBackNavigateToInitialRoute = True,
      tabRouters = tabRoutersAt [a \<mapsto> None, b \<mapsto> None] True\<rparr>"

definition homeTabs :: "int tabRouter" where
  "homeTabs = leafTabs ''Home'' ''Profile''"

definition blankTabs :: "int tabRouter" where
  "blankTabs = leafTabs [] ''Profile''"

definition profileTabs :: "int tabRouter" where
  "profileTabs = leafTabs ''Home'' ''Feed''"

definition moreTabs :: "int tabRouter" where
  "moreTabs = leafTabs ''About'' ''Help''"

text \<open>
  A nested router that handles nothing: its reducer returns the state it is given. \<open>idleTabs\<close>
  is the router the factory builds for a plain Home and a Profile screen with that router.
\<close>

definition idle :: "'v router" where
  "idle =
     \<lparr>getStateForAction_of = (\<lambda>a s h. Inr (s, h)),
      getPathAndParamsForState_of = (\<lambda>r h. Inr (None, None)),
      getActionForPathAndParams_of = None\<rparr>"

definition idleTabs :: "int tabRouter" where
  "idleTabs =
     \<lparr>routeConfigs =
        [(''Home'', plain), (''Profile'', \<lparr>screen = Some \<lparr>router = Some idle\<rparr>, path = None\<rparr>)],
      order = [''Home'', ''Profile''],
      paths = pathsAt [''Home'' \<mapsto> ''Home'', ''Profile'' \<mapsto> ''Profile''],
      initialRouteName = Some ''Home'', initialRouteIndex = 0,
      shouldBackNavigateToInitialRoute = True,
      tabRouters = tabRoutersAt [''Home'' \<mapsto> None, ''Profile'' \<mapsto> Some idle] True\<rparr>"

text \<open>Three tabs, two of them with a nested tab router.\<close>

definition appTabs :: "int tabRouter" where
  "appTabs =
     \<lparr>routeConfigs =
        [(''Home'', plain), (''Profile'', nested profileTabs), (''More'', nested moreTabs)],
      order = [''Home'', ''Profile'', ''More''],
      paths = pathsAt [''Home'' \<mapsto> ''Home'', ''Profile'' \<mapsto> ''Profile'', ''More'' \<mapsto> ''More''],
      initialRouteName = Some ''Home'', initialRouteIndex = 0,
      shouldBackNavigateToInitialRoute = True,
      tabRouters =
        tabRoutersAt [''Home'' \<mapsto> None, ''Profile'' \<mapsto> Some (as_router profileTabs),
                      ''More'' \<mapsto> Some (as_router moreTabs)] True\<rparr>"

definition leaf :: "string \<Rightarrow> 'v obj" where
  "leaf n = empty_obj\<lparr>key := Some n, routeName := Some n\<rparr>"

definition node :: "string \<Rightarrow> nat \<Rightarrow> ref list \<Rightarrow> 'v obj" where
  "node n i rs =
     empty_obj\<lparr>key := Some n, routeName := Some n, index := Some i, routes := Some (map Ref rs)\<rparr>"

definition root :: "nat \<Rightarrow> ref list \<Rightarrow> 'v obj" where
  "root i rs = empty_obj\<lparr>index := Some i, routes := Some (map Ref rs)\<rparr>"

text \<open>
  States of \<open>homeTabs\<close> and of \<open>idleTabs\<close>: the routes 0 (Home, with params) and 1 (Profile),
  the state 2 with Home active and the state 3 with Profile active.
\<close>

definition homeHeap :: "int heap" where
  "homeHeap =
     \<lparr>objs = (\<lambda>_. empty_obj)
        (0 := (leaf ''Home'')\<lparr>params := Some [''a'' \<mapsto> 1]\<rparr>, 1 := leaf ''Profile'',
         2 := root 0 [0, 1], 3 := root 1 [0, 1]),
      lim = 4\<rparr>"

text \<open>A state of \<open>blankTabs\<close>: the route 0 has the empty name and is active in the state 2.\<close>

definition blankHeap :: "int heap" where
  "blankHeap =
     \<lparr>objs = (\<lambda>_. empty_obj)(0 := leaf [], 1 := leaf ''Profile'', 2 := root 0 [0, 1]), lim = 3\<rparr>"

text \<open>
  States of \<open>appTabs\<close>: the state 7 with Profile active and the state 8 with More active; the
  route 3 of Profile is the state of \<open>profileTabs\<close> with Feed active, the route 6 of More is the
  state of \<open>moreTabs\<close> with About, its initial route, active.
\<close>

definition appHeap :: "int heap" where
  "appHeap =
     \<lparr>objs = (\<lambda>_. empty_obj)
        (0 := leaf ''Home'', 1 := leaf ''Home'', 2 := leaf ''Feed'', 3 := node ''Profile'' 1 [1, 2],
         4 := leaf ''About'', 5 := leaf ''Help'', 6 := node ''More'' 0 [4, 5],
         7 := root 1 [0, 3, 6], 8 := root 2 [0, 3, 6]),
      lim = 9\<rparr>"

section \<open>Results of the blocks\<close>

lemmas js_defs = Let_def js_String_def list_get_def spread_def spread_obj_def arr_get_def
  arr_set_def arr_copy_def indexOf_def routes_of_def alloc_def assign_routes_def empty_obj_def
  objectPrototypeNames_def inheritedValue_def

lemmas factory_defs = TabRouter_def routeConfigAt_def

lemmas collab_defs = mapDeprecatedActionAndWarn_def init_def navigate_def StateUtils_indexOf_def
  StateUtils_indexOfByName_def StateUtils_replaceAtIndex_def getScreenForRouteName_def
  validateRouteConfigMap_def

lemmas reducer_defs = getStateForAction_def defaultState_def initAction_def passAction_def
  forwarded_def activeTabRouter_of_def activeTab_def isBackEligible_def findTab_def
  didNavigate_of_def navigateTo_def setParams_def tabChange_def broadcast_def

lemmas codec_defs = getPathAndParamsForState_def pathMatch_of_def actionForTab_def
  getActionForPathAndParams_def as_router_def

lemmas example_defs = tabRoutersAt_def pathsAt_def plain_def nested_def defaults_def
  leafTabs_def homeTabs_def blankTabs_def idle_def idleTabs_def profileTabs_def moreTabs_def
  appTabs_def leaf_def node_def root_def homeHeap_def blankHeap_def appHeap_def

text \<open>The example routers.\<close>

lemma factory_idleTabs:
  "TabRouter [(''Home'', plain), (''Profile'', \<lparr>screen = Some \<lparr>router = Some idle\<rparr>, path = None\<rparr>)]
     defaults = Inr idleTabs"
  by (simp add: factory_defs js_defs collab_defs example_defs)


text \<open>
  A Pass action that names an inherited property passes the guard of line 115 like one that
  names a tab: with the key of a route it reaches line 126, which throws.
\<close>

lemma pass_to_inherited_name_throws:
  "TabRouter [(''Home'', plain), (''Profile'', plain)] defaults = Inr homeTabs \<and>
   tabRouters homeTabs ''toString'' = Some (Some inheritedValue) \<and>
   getStateForAction homeTabs
     (Action PASS (Some ''toString'') (Some ''Home'') None (Some (init None)))
     (Some 2) homeHeap = Inl TypeError"
  by (simp add: factory_defs js_defs collab_defs reducer_defs example_defs)

lemma factory_appTabs:
  "TabRouter [(''Home'', plain), (''Profile'', nested profileTabs), (''More'', nested moreTabs)]
     defaults = Inr appTabs"
  by (simp add: factory_defs js_defs collab_defs example_defs)


text \<open>A block that ends the first reduction (no input state) ends it with a state.\<close>

lemma passAction_returns_state:
  "passAction tr a s h = Inr (Some res, h') \<Longrightarrow> res \<noteq> None"
  by (auto simp: passAction_def alloc_def split: if_splits option.splits sum.splits prod.splits)

lemma activeTab_first_returns_state:
  "activeTab tr a None s l h = Inr (Some res, h') \<Longrightarrow> res \<noteq> None"
  by (auto simp: activeTab_def alloc_def split: if_splits option.splits sum.splits prod.splits)

lemma navigateTo_returns_state:
  "navigateTo tr a s i h = Inr (Some res, h') \<Longrightarrow> res \<noteq> None"
  by (auto simp: navigateTo_def alloc_def Let_def
        split: if_splits option.splits sum.splits prod.splits)

lemma setParams_returns_state:
  "setParams a s h = Inr (Some res, h') \<Longrightarrow> res \<noteq> None"
  by (auto simp: setParams_def alloc_def Let_def
        split: if_splits option.splits sum.splits prod.splits)

lemma tabChange_first_returns_state:
  "tabChange tr a None s l h = Inr (Some res, h') \<Longrightarrow> res \<noteq> None"
  by (auto simp: tabChange_def alloc_def Let_def
        split: if_splits option.splits sum.splits prod.splits
        dest: navigateTo_returns_state setParams_returns_state)

lemma broadcast_returns_state:
  "broadcast tr a s h = Inr (res, h') \<Longrightarrow> res \<noteq> None"
  by (auto simp: broadcast_def alloc_def Let_def
        split: if_splits option.splits sum.splits prod.splits)

text \<open>
  With no input state the function never returns \<^verbatim>\<open>null\<close>: the two \<^verbatim>\<open>return null\<close> statements
  (lines 149 and 243) are guarded by \<^verbatim>\<open>inputState\<close>.
\<close>

lemma absent_state_never_null:
  "getStateForAction tr a None h \<noteq> Inr (None, h')"
  by (auto simp: getStateForAction_def Let_def split: option.splits sum.splits prod.splits
        dest: passAction_returns_state activeTab_first_returns_state
              tabChange_first_returns_state broadcast_returns_state)

text \<open>Arrays without holes.\<close>

lemma arr_get_dense:
  "arr_get (map Ref rs) (Some i) = (if i < length rs then Some (rs ! i) else None)"
  by (simp add: arr_get_def)



lemma findRoute_dense:
  "findRoute h (map Ref rs) k = Inr (List.find (\<lambda>r. key (objs h r) = k) rs)"
  by (induction rs) auto

text \<open>Blocks that fall through.\<close>

lemma defaultState_supplied: "defaultState tr a (Some s) h = Inr (s, h)"
  by (simp add: defaultState_def)

lemma initAction_skip:
  "a_type a \<noteq> INIT \<or> a_params a = None \<Longrightarrow> initAction a s h = Inr h"
  by (auto simp: initAction_def)

lemma passAction_skip:
  "a_type a \<noteq> PASS \<or> a_action a = None \<or> tabRouters tr (js_String (a_routeName a)) = None
   \<Longrightarrow> passAction tr a s h = Inr (None, h)"
  by (auto simp: passAction_def split: option.splits)

lemma activeTab_unhandled:
  assumes "\<forall>r. activeTabRouter_of tr h s = Some r \<longrightarrow>
             getStateForAction_of r (forwarded a) (Some l) h = Inr (Some l, h)"
  shows "activeTab tr a inp s (Some l) h = Inr (None, h)"
  using assms by (auto simp: activeTab_def split: option.splits)

lemma otherTabs_unhandled:
  assumes "\<forall>k<length names. Some (j + k) \<noteq> idx \<longrightarrow>
             j + k < length rs \<and>
             (\<forall>r. tabRouters tr (names ! k) = Some (Some r) \<longrightarrow>
                  getStateForAction_of r a (Some (rs ! (j + k))) h = Inr (Some (rs ! (j + k)), h))"
  shows "otherTabs tr a idx (Some (map Ref rs)) names j h = Inr (None, h)"
  using assms
proof (induction names arbitrary: j)
  case Nil
  then show ?case by simp
next
  case (Cons n names)
  have rest: "otherTabs tr a idx (Some (map Ref rs)) names (Suc j) h = Inr (None, h)"
  proof (rule Cons.IH, intro allI impI)
    fix k assume k: "k < length names" and ne: "Some (Suc j + k) \<noteq> idx"
    from Cons.prems k ne have
      "j + Suc k < length rs \<and>
       (\<forall>r. tabRouters tr ((n # names) ! Suc k) = Some (Some r) \<longrightarrow>
          getStateForAction_of r a (Some (rs ! (j + Suc k))) h = Inr (Some (rs ! (j + Suc k)), h))"
      by (metis Suc_less_eq add_Suc_shift length_Cons add_Suc_right)
    then show "Suc j + k < length rs \<and>
       (\<forall>r. tabRouters tr (names ! k) = Some (Some r) \<longrightarrow>
          getStateForAction_of r a (Some (rs ! (Suc j + k))) h = Inr (Some (rs ! (Suc j + k)), h))"
      by simp
  qed
  show ?case
  proof (cases "Some j = idx")
    case True
    then show ?thesis using rest by simp
  next
    case False
    with Cons.prems[rule_format, of 0] have
      here: "j < length rs"
        "\<forall>r. tabRouters tr n = Some (Some r) \<longrightarrow>
           getStateForAction_of r a (Some (rs ! j)) h = Inr (Some (rs ! j), h)"
      by auto
    show ?thesis using False here rest
      by (auto simp: arr_get_dense split: option.splits)
  qed
qed

lemma broadcast_unhandled:
  assumes "routes (objs h s) = Some (map Ref rs)"
    and "\<forall>k<length (order tr). Some k \<noteq> index (objs h s) \<longrightarrow>
             k < length rs \<and>
             (\<forall>r. tabRouters tr (order tr ! k) = Some (Some r) \<longrightarrow>
                  getStateForAction_of r a (Some (rs ! k)) h = Inr (Some (rs ! k), h))"
  shows "broadcast tr a s h = Inr (Some s, h)"
proof -
  have "otherTabs tr a (index (objs h s)) (Some (map Ref rs)) (order tr) 0 h = Inr (None, h)"
    by (rule otherTabs_unhandled) (use assms(2) in simp)
  then show ?thesis using assms(1) by (simp add: broadcast_def)
qed


lemma isBackEligible_active:
  "isBackEligible a (Some l) h = Inr (a_key a = None \<or> a_key a = key (objs h l))"
  by (auto simp: isBackEligible_def split: option.splits)

lemma setParams_no_key:
  assumes "routes (objs h s) = Some (map Ref rs)" and "\<forall>r\<in>set rs. key (objs h r) \<noteq> a_key a"
  shows "setParams a s h = Inr (None, h)"
proof -
  have "List.find (\<lambda>r. key (objs h r) = a_key a) rs = None"
    using assms(2) by (simp add: find_None_iff)
  then show ?thesis using assms(1)
    by (simp add: setParams_def routes_of_def findRoute_dense)
qed

lemma tabChange_unhandled:
  assumes "routes (objs h s) = Some (map Ref rs)" and "index (objs h s) = Some i"
    and "a_type a = BACK \<longrightarrow>
           \<not> shouldBackNavigateToInitialRoute tr \<or> initialRouteIndex tr = i
           \<or> (a_key a \<noteq> None \<and> a_key a \<noteq> key (objs h l))"
    and "a_type a = NAVIGATE \<longrightarrow> findTab (order tr) (a_routeName a) = None"
    and "a_type a = SET_PARAMS \<longrightarrow> (\<forall>r\<in>set rs. key (objs h r) \<noteq> a_key a)"
  shows "tabChange tr a inp s (Some l) h = Inr (None, h)"
proof (cases "a_type a = SET_PARAMS")
  case True
  then have "setParams a s h = Inr (None, h)"
    using assms(1,5) by (simp add: setParams_no_key)
  then show ?thesis using True assms(2)
    by (simp add: tabChange_def isBackEligible_active didNavigate_of_def)
next
  case False
  then show ?thesis using assms(2,3,4)
    by (auto simp: tabChange_def isBackEligible_active didNavigate_of_def)
qed

text \<open>Navigate to the active tab, with nothing to change.\<close>

lemma navigate_active_unchanged:
  assumes "routes (objs h s) = Some (map Ref rs)" and "index (objs h s) = Some i"
    and "i < length rs"
    and "a_type a = NAVIGATE" and "a_routeName a = Some n" and "n \<noteq> []"
    and "findTab (order tr) (Some n) = Some i"
    and "a_params a = None" and "a_action a = None"
    and "\<forall>r. activeTabRouter_of tr h s = Some r \<longrightarrow>
           getStateForAction_of r a (Some (rs ! i)) h = Inr (Some (rs ! i), h)"
  shows "getStateForAction tr a (Some s) h = Inr (None, h)"
proof -
  have fwd: "forwarded a = a"
    using assms(9) by (simp add: forwarded_def)
  have 1: "initAction a s h = Inr h"
    using assms(4) by (simp add: initAction_skip)
  have 2: "passAction tr a s h = Inr (None, h)"
    using assms(4) by (simp add: passAction_skip)
  have 3: "arr_get (map Ref rs) (Some i) = Some (rs ! i)"
    using assms(3) by (simp add: arr_get_dense)
  have 4: "activeTab tr a (Some s) s (Some (rs ! i)) h = Inr (None, h)"
    by (rule activeTab_unhandled) (use assms(10) fwd in simp)
  have 5: "navigateTo tr a s i h = Inr (None, h)"
    using assms(1,8,9) by (simp add: navigateTo_def routes_of_def Let_def)
  have 6: "tabChange tr a (Some s) s (Some (rs ! i)) h = Inr (Some None, h)"
    using assms(2,4,5,6,7) 5
    by (simp add: tabChange_def isBackEligible_active didNavigate_of_def Let_def)
  show ?thesis
    using assms(1,2) 1 2 3 4 6
    by (simp add: getStateForAction_def mapDeprecatedActionAndWarn_def defaultState_supplied
          routes_of_def)
qed



lemma activeTabRouter_of_tab:
  "activeTabRouter_of tr h s = Some r \<Longrightarrow> \<exists>n. tabRouters tr n = Some (Some r)"
  by (auto simp: activeTabRouter_of_def split: option.splits)









text \<open>The first reduction: what the blocks keep of the state built at lines 87 to 90.\<close>

lemma factory_initial:
  assumes "TabRouter rcs cfg = Inr tr"
  shows "\<exists>n. initialRouteName tr = Some n \<and> indexOf (order tr) n = Some (initialRouteIndex tr)"
proof -
  define ord where "ord = (case config_order cfg of Some xs \<Rightarrow> xs | None \<Rightarrow> map fst rcs)"
  define nm where
    "nm = (case config_initialRouteName cfg of
             Some n \<Rightarrow> (if n \<noteq> [] then Some n else (case ord of [] \<Rightarrow> None | n # _ \<Rightarrow> Some n))
           | None \<Rightarrow> (case ord of [] \<Rightarrow> None | n # _ \<Rightarrow> Some n))"
  have "\<exists>i. (case nm of None \<Rightarrow> None | Some n \<Rightarrow> indexOf ord n) = Some i
            \<and> order tr = ord \<and> initialRouteName tr = nm \<and> initialRouteIndex tr = i"
    using assms unfolding TabRouter_def Let_def ord_def[symmetric] nm_def[symmetric]
    by (auto split: sum.splits prod.splits option.splits)
  then show ?thesis
    by (cases nm) auto
qed

lemma initialRoutes_shape:
  "initialRoutes tr a names h = Inr (rs, h1) \<Longrightarrow> \<exists>refs. rs = map Ref refs \<and> length refs = length names"
proof (induction names arbitrary: h rs h1)
  case Nil
  then show ?case by simp
next
  case (Cons n names)
  from Cons.prems obtain r h2 rs' where
    "initialRoutes tr a names h2 = Inr (rs', h1)" and "rs = Ref r # rs'"
    by (auto split: sum.splits option.splits prod.splits)
  with Cons.IH[of h2 rs' h1] obtain refs where "rs' = map Ref refs" "length refs = length names"
    by blast
  then have "rs = map Ref (r # refs) \<and> length (r # refs) = length (n # names)"
    using \<open>rs = Ref r # rs'\<close> by simp
  then show ?case by blast
qed

lemma defaultState_first:
  "defaultState tr a None h = Inr (st, h1) \<Longrightarrow> first_state tr h1 st"
  by (auto simp: defaultState_def first_state_def alloc_def empty_obj_def
        split: sum.splits prod.splits dest: initialRoutes_shape)

lemma mergeRoutes_shape:
  "mergeRoutes p (map Ref rs) h = Inr (rs', h') \<Longrightarrow>
     (\<exists>refs. rs' = map Ref refs \<and> length refs = length rs)
     \<and> lim h \<le> lim h' \<and> (\<forall>x<lim h. objs h' x = objs h x)"
proof (induction rs arbitrary: h rs' h')
  case Nil
  then show ?case by simp
next
  case (Cons r rs)
  define h1 where "h1 = snd (alloc ((objs h r)\<lparr>params := Some (spread (params (objs h r)) ++ p)\<rparr>) h)"
  have h1: "lim h1 = Suc (lim h)" "\<And>x. x < lim h \<Longrightarrow> objs h1 x = objs h x"
    by (simp_all add: h1_def alloc_def)
  from Cons.prems obtain rs2 where
    m: "mergeRoutes p (map Ref rs) h1 = Inr (rs2, h')" and rs': "rs' = Ref (lim h) # rs2"
    by (auto simp: h1_def alloc_def split: sum.splits prod.splits)
  from Cons.IH[OF m] obtain refs where
    refs: "rs2 = map Ref refs" "length refs = length rs"
    and l: "lim h1 \<le> lim h'" and o: "\<forall>x<lim h1. objs h' x = objs h1 x"
    by blast
  have "rs' = map Ref (lim h # refs) \<and> length (lim h # refs) = length (r # rs)"
    using rs' refs by simp
  moreover have "lim h \<le> lim h'" using l h1(1) by simp
  moreover have "\<forall>x<lim h. objs h' x = objs h x" using o h1 by simp
  ultimately show ?case by blast
qed

lemma initAction_first:
  assumes "first_state tr h st" and "initAction a st h = Inr h1"
  shows "first_state tr h1 st"
proof (cases "a_type a = INIT \<and> a_params a \<noteq> None")
  case False
  then have "initAction a st h = Inr h" by (auto simp: initAction_skip)
  then show ?thesis using assms by simp
next
  case True
  then obtain p where p: "a_type a = INIT" "a_params a = Some p" by auto
  from assms(1) obtain rs where rs: "routes (objs h st) = Some (map Ref rs)"
    "length rs = length (order tr)" and st: "st < lim h"
    "index (objs h st) = Some (initialRouteIndex tr)"
    by (auto simp: first_state_def)
  from assms(2) p rs(1) obtain rs' hm where
    m: "mergeRoutes p (map Ref rs) h = Inr (rs', hm)" and h1: "h1 = assign_routes st rs' hm"
    by (auto simp: initAction_def routes_of_def split: sum.splits prod.splits)
  from mergeRoutes_shape[OF m] obtain refs where
    "rs' = map Ref refs" "length refs = length rs" "lim h \<le> lim hm"
    "\<forall>x<lim h. objs hm x = objs h x"
    by blast
  then show ?thesis using h1 st rs(2)
    by (auto simp: first_state_def assign_routes_def)
qed


lemma first_state_index: "first_state tr h st \<Longrightarrow> index (objs h st) = Some (initialRouteIndex tr)"
  by (simp add: first_state_def)


text \<open>The first reduction: the index of what a block returns.\<close>

lemma passAction_result_index:
  "passAction tr a st h = Inr (Some res, h') \<Longrightarrow> index (objs h' st) = I
   \<Longrightarrow> \<exists>r'. res = Some r' \<and> index (objs h' r') = I"
  by (auto simp: passAction_def alloc_def split: if_splits option.splits sum.splits prod.splits)

lemma activeTab_result_index:
  "activeTab tr a None st l h = Inr (Some res, h') \<Longrightarrow> index (objs h' st) = I
   \<Longrightarrow> \<exists>r'. res = Some r' \<and> index (objs h' r') = I"
  by (auto simp: activeTab_def alloc_def split: if_splits option.splits sum.splits prod.splits)

lemma navigateTo_result_index:
  "navigateTo tr a st i h = Inr (Some res, h')
   \<Longrightarrow> \<exists>r'. res = Some r' \<and> index (objs h' r') = Some i"
  by (auto simp: navigateTo_def alloc_def Let_def
        split: if_splits option.splits sum.splits prod.splits)

lemma setParams_result_index:
  "setParams a st h = Inr (Some res, h') \<Longrightarrow> index (objs h' st) = I
   \<Longrightarrow> \<exists>r'. res = Some r' \<and> index (objs h' r') = I"
  by (auto simp: setParams_def alloc_def Let_def
        split: if_splits option.splits sum.splits prod.splits)


lemma tabChange_result_index:
  assumes "tabChange tr a None st l h = Inr (Some res, h')"
    and "index (objs h st) = Some (initialRouteIndex tr)"
    and "index (objs h' st) = Some (initialRouteIndex tr)"
    and "a_type a = NAVIGATE \<longrightarrow>
           findTab (order tr) (a_routeName a) = None
           \<or> findTab (order tr) (a_routeName a) = Some (initialRouteIndex tr)"
  shows "\<exists>r'. res = Some r' \<and> index (objs h' r') = Some (initialRouteIndex tr)"
proof -
  let ?init = "initialRouteIndex tr"
  obtain el where be: "isBackEligible a l h = Inr el"
    using assms(1) by (cases "isBackEligible a l h") (simp_all add: tabChange_def)
  define found where
    "found = (if a_type a = NAVIGATE then findTab (order tr) (a_routeName a) else None)"
  define ati where
    "ati = (case found of
              Some i \<Rightarrow> Some i
            | None \<Rightarrow> (if a_type a = BACK \<and> el \<and> shouldBackNavigateToInitialRoute tr
                        then Some ?init else index (objs h st)))"
  define dn where "dn = (a_type a = NAVIGATE \<and> didNavigate_of (order tr) (a_routeName a))"
  define N where
    "N = (case found of
            Some i \<Rightarrow> (if dn then navigateTo tr a st i h else Inr (None, h))
          | None \<Rightarrow> Inr (None, h))"
  define F where
    "F = (\<lambda>h2. if ati \<noteq> index (objs h2 st) then
                   (case alloc ((objs h2 st)\<lparr>index := ati\<rparr>) h2 of
                      (r', h3) \<Rightarrow> Inr (Some (Some r'), h3))
                else if dn then Inr (Some (Some st), h2)
                else (Inr (None, h2) :: error + (ref option option \<times> 'a heap)))"
  have tc: "tabChange tr a None st l h =
              (case N of
                 Inl e \<Rightarrow> Inl e
               | Inr (Some result, h1) \<Rightarrow> Inr (Some result, h1)
               | Inr (None, h1) \<Rightarrow>
                   (case (if a_type a = SET_PARAMS then setParams a st h1 else Inr (None, h1)) of
                      Inl e \<Rightarrow> Inl e
                    | Inr (Some result, h2) \<Rightarrow> Inr (Some result, h2)
                    | Inr (None, h2) \<Rightarrow> F h2))"
    unfolding tabChange_def Let_def N_def F_def ati_def found_def dn_def using be
    by (simp cong: sum.case_cong option.case_cong prod.case_cong if_cong)
  have ati: "ati = Some ?init"
    using assms(2,4) by (auto simp: ati_def found_def split: option.splits)
  have fin: "\<exists>r'. res = Some r' \<and> index (objs h' r') = Some ?init"
    if "F h2 = Inr (Some res, h')" for h2
    using that assms(3) ati by (auto simp: F_def alloc_def split: if_splits)
  show ?thesis
  proof (cases N)
    case (Inl e)
    then show ?thesis using assms(1) tc by simp
  next
    case (Inr p)
    then obtain o1 h1 where n: "N = Inr (o1, h1)" by (cases p) auto
    show ?thesis
    proof (cases o1)
      case (Some r)
      then have eq: "res = r" "h' = h1" using assms(1) tc n by simp_all
      from n Some obtain i where "found = Some i" "navigateTo tr a st i h = Inr (Some r, h1)"
        by (auto simp: N_def split: option.splits if_splits)
      moreover from this(1) have "i = ?init"
        using assms(4) by (auto simp: found_def split: if_splits)
      ultimately show ?thesis using eq by (auto dest: navigateTo_result_index)
    next
      case None
      show ?thesis
      proof (cases "if a_type a = SET_PARAMS then setParams a st h1 else Inr (None, h1)")
        case (Inl e)
        then show ?thesis using assms(1) tc n None by simp
      next
        case (Inr q)
        then obtain o2 h2 where
          sp: "(if a_type a = SET_PARAMS then setParams a st h1 else Inr (None, h1)) = Inr (o2, h2)"
          by (cases q) auto
        show ?thesis
        proof (cases o2)
          case (Some r)
          then have eq: "res = r" "h' = h2" using assms(1) tc n None sp by simp_all
          from sp Some have "setParams a st h1 = Inr (Some r, h2)"
            by (auto split: if_splits)
          then show ?thesis using eq assms(3) by (auto dest: setParams_result_index)
        next
          case n2: None
          then have "F h2 = Inr (Some res, h')" using assms(1) tc n None sp by simp
          then show ?thesis by (rule fin)
        qed
      qed
    qed
  qed
qed

lemma undisturbed_from_broadcast_result:
  assumes "undisturbed_from_broadcast tr a st h"
  shows "\<exists>h'. broadcast tr a st h = Inr (Some st, h') \<and> objs h' st = objs h st"
proof (cases "otherTabs tr a (index (objs h st)) (routes (objs h st)) (order tr) 0 h")
  case (Inl e)
  then show ?thesis using assms by (simp add: undisturbed_from_broadcast_def)
next
  case (Inr p)
  then obtain h' where
    "otherTabs tr a (index (objs h st)) (routes (objs h st)) (order tr) 0 h = Inr (None, h')"
    and "objs h' st = objs h st"
    using assms by (cases p) (simp add: undisturbed_from_broadcast_def)
  then show ?thesis by (simp add: broadcast_def)
qed

lemma undisturbed_from_tabChange_result:
  assumes "undisturbed_from_tabChange tr a st l h"
    and "index (objs h st) = Some (initialRouteIndex tr)"
    and "a_type a = NAVIGATE \<longrightarrow>
           findTab (order tr) (a_routeName a) = None
           \<or> findTab (order tr) (a_routeName a) = Some (initialRouteIndex tr)"
  shows "\<exists>s h'. (case tabChange tr a None st l h of
                    Inl e \<Rightarrow> Inl e
                  | Inr (Some result, h5) \<Rightarrow> Inr (result, h5)
                  | Inr (None, h5) \<Rightarrow> broadcast tr a st h5) = Inr (Some s, h')
                 \<and> index (objs h' s) = Some (initialRouteIndex tr)"
proof (cases "tabChange tr a None st l h")
  case (Inl e)
  then show ?thesis using assms(1) by (simp add: undisturbed_from_tabChange_def)
next
  case (Inr p)
  then obtain res h1 where tc: "tabChange tr a None st l h = Inr (res, h1)"
    by (cases p) auto
  then have k: "objs h1 st = objs h st"
    and rest: "res = None \<longrightarrow> undisturbed_from_broadcast tr a st h1"
    using assms(1) by (simp_all add: undisturbed_from_tabChange_def)
  have i1: "index (objs h1 st) = Some (initialRouteIndex tr)"
    using k assms(2) by simp
  show ?thesis
  proof (cases res)
    case (Some r)
    then obtain r' where "r = Some r'" "index (objs h1 r') = Some (initialRouteIndex tr)"
      using tabChange_result_index[OF tc[unfolded Some] assms(2) i1 assms(3)] by blast
    then show ?thesis using tc Some by simp
  next
    case None
    then obtain h' where "broadcast tr a st h1 = Inr (Some st, h')" "objs h' st = objs h1 st"
      using rest undisturbed_from_broadcast_result by blast
    then show ?thesis using tc None i1 by simp
  qed
qed

lemma undisturbed_from_activeTab_result:
  assumes "undisturbed_from_activeTab tr a st h"
    and "index (objs h st) = Some (initialRouteIndex tr)"
    and "a_type a = NAVIGATE \<longrightarrow>
           findTab (order tr) (a_routeName a) = None
           \<or> findTab (order tr) (a_routeName a) = Some (initialRouteIndex tr)"
  shows "\<exists>s h'. (case routes_of h st of
                    Inl e \<Rightarrow> Inl e
                  | Inr rs \<Rightarrow>
                      (let activeTabLastState = arr_get rs (index (objs h st))
                       in case activeTab tr a None st activeTabLastState h of
                            Inl e \<Rightarrow> Inl e
                          | Inr (Some result, h4) \<Rightarrow> Inr (result, h4)
                          | Inr (None, h4) \<Rightarrow>
                              (case tabChange tr a None st activeTabLastState h4 of
                                 Inl e \<Rightarrow> Inl e
                               | Inr (Some result, h5) \<Rightarrow> Inr (result, h5)
                               | Inr (None, h5) \<Rightarrow> broadcast tr a st h5))) = Inr (Some s, h')
                 \<and> index (objs h' s) = Some (initialRouteIndex tr)"
proof (cases "routes_of h st")
  case (Inl e)
  then show ?thesis using assms(1) by (simp add: undisturbed_from_activeTab_def)
next
  case (Inr rs)
  let ?l = "arr_get rs (index (objs h st))"
  show ?thesis
  proof (cases "activeTab tr a None st ?l h")
    case (Inl e)
    then show ?thesis using assms(1) Inr by (simp add: undisturbed_from_activeTab_def)
  next
    case inr: (Inr p)
    then obtain res h1 where at: "activeTab tr a None st ?l h = Inr (res, h1)"
      by (cases p) auto
    then have k: "objs h1 st = objs h st"
      and rest: "res = None \<longrightarrow> undisturbed_from_tabChange tr a st ?l h1"
      using assms(1) Inr by (simp_all add: undisturbed_from_activeTab_def)
    have i1: "index (objs h1 st) = Some (initialRouteIndex tr)"
      using k assms(2) by simp
    show ?thesis
    proof (cases res)
      case (Some r)
      then obtain r' where "r = Some r'" "index (objs h1 r') = Some (initialRouteIndex tr)"
        using activeTab_result_index[OF at[unfolded Some] i1] by blast
      then show ?thesis using Inr at Some by simp
    next
      case None
      then have "undisturbed_from_tabChange tr a st ?l h1" using rest by simp
      from undisturbed_from_tabChange_result[OF this i1 assms(3)] show ?thesis
        using Inr at None by simp
    qed
  qed
qed


section \<open>The claims\<close>




text \<open>
  C2, as the claim states it, fails for a Navigate action that names another tab: with no input
  state, \<open>homeTabs\<close> (initial route Home, position 0) returns a state whose index is 1.
\<close>

theorem first_navigate_leaves_initial_tab:
  "TabRouter [(''Home'', plain), (''Profile'', plain)] defaults = Inr homeTabs \<and>
   initialRouteName homeTabs = Some ''Home'' \<and> indexOf (order homeTabs) ''Home'' = Some 0 \<and>
   getStateForAction homeTabs (navigate ''Profile'') None empty_heap
     = Inr (Some 3,
            \<lparr>objs = (\<lambda>_. empty_obj)
               (0 := leaf ''Home'', 1 := leaf ''Profile'', 2 := root 0 [0, 1], 3 := root 1 [0, 1]),
             lim = 4\<rparr>)"
  by (simp add: factory_defs js_defs collab_defs reducer_defs example_defs empty_heap_def
        numeral_2_eq_2 numeral_3_eq_3)

text \<open>
  C2, amended. For a router that the factory built, with no input state, \<^verbatim>\<open>getStateForAction\<close>
  returns a state whose index is the position of \<^verbatim>\<open>initialRouteName\<close> in \<^verbatim>\<open>order\<close>, provided that
  the action is not a Navigate that names another tab and that this reduction runs
  undisturbed: no block throws, the nested routers it calls leave the object of the
  synthesized state as it was, and the final broadcast finds no tab whose router responds.
\<close>

theorem first_reduction_keeps_initial_index:
  assumes "TabRouter rcs cfg = Inr tr"
    and "a_type a = NAVIGATE \<longrightarrow>
           findTab (order tr) (a_routeName a) = None
           \<or> findTab (order tr) (a_routeName a) = Some (initialRouteIndex tr)"
    and "undisturbed_first_reduction tr a h"
  shows "\<exists>s h' n. getStateForAction tr a None h = Inr (Some s, h')
           \<and> initialRouteName tr = Some n \<and> index (objs h' s) = indexOf (order tr) n"
proof -
  have "\<exists>s h'. getStateForAction tr a None h = Inr (Some s, h')
           \<and> index (objs h' s) = Some (initialRouteIndex tr)"
  proof (cases "defaultState tr a None h")
    case (Inl e)
    then show ?thesis
      using assms(3) by (simp add: undisturbed_first_reduction_def mapDeprecatedActionAndWarn_def)
  next
    case (Inr p)
    then obtain st h1 where d: "defaultState tr a None h = Inr (st, h1)"
      by (cases p) auto
    have f1: "first_state tr h1 st" using d by (rule defaultState_first)
    show ?thesis
    proof (cases "initAction a st h1")
      case (Inl e)
      then show ?thesis
        using assms(3) d by (simp add: undisturbed_first_reduction_def mapDeprecatedActionAndWarn_def)
    next
      case i: (Inr h2)
      have "first_state tr h2 st" using f1 i by (rule initAction_first)
      then have i2: "index (objs h2 st) = Some (initialRouteIndex tr)"
        by (rule first_state_index)
      show ?thesis
      proof (cases "passAction tr a st h2")
        case (Inl e)
        then show ?thesis
          using assms(3) d i
          by (simp add: undisturbed_first_reduction_def mapDeprecatedActionAndWarn_def)
      next
        case inr: (Inr q)
        then obtain res h3 where pa: "passAction tr a st h2 = Inr (res, h3)"
          by (cases q) auto
        then have k: "objs h3 st = objs h2 st"
          and rest: "res = None \<longrightarrow> undisturbed_from_activeTab tr a st h3"
          using assms(3) d i
          by (simp_all add: undisturbed_first_reduction_def mapDeprecatedActionAndWarn_def)
        have i3: "index (objs h3 st) = Some (initialRouteIndex tr)"
          using k i2 by simp
        show ?thesis
        proof (cases res)
          case (Some r)
          then obtain r' where "r = Some r'" "index (objs h3 r') = Some (initialRouteIndex tr)"
            using passAction_result_index[OF pa[unfolded Some] i3] by blast
          then show ?thesis
            using d i pa Some by (simp add: getStateForAction_def mapDeprecatedActionAndWarn_def)
        next
          case None
          then have "undisturbed_from_activeTab tr a st h3" using rest by simp
          from undisturbed_from_activeTab_result[OF this i3 assms(2)] show ?thesis
            using d i pa None by (simp add: getStateForAction_def mapDeprecatedActionAndWarn_def)
        qed
      qed
    qed
  qed
  then show ?thesis using factory_initial[OF assms(1)] by auto
qed

theorem first_reduction_keeps_initial_index_witness:
  "\<exists>s h' n. getStateForAction appTabs (init None) None empty_heap = Inr (Some s, h')
       \<and> initialRouteName appTabs = Some n \<and> index (objs h' s) = indexOf (order appTabs) n"
proof -
  let ?a = "init None :: int action"
  have n: "a_type ?a = NAVIGATE \<longrightarrow>
             findTab (order appTabs) (a_routeName ?a) = None
             \<or> findTab (order appTabs) (a_routeName ?a) = Some (initialRouteIndex appTabs)"
    by (simp add: init_def)
  have u: "undisturbed_first_reduction appTabs ?a empty_heap"
    by (simp add: undisturbed_first_reduction_def undisturbed_from_activeTab_def undisturbed_from_tabChange_def
          undisturbed_from_broadcast_def js_defs collab_defs reducer_defs example_defs codec_defs
          empty_heap_def numeral_2_eq_2 numeral_3_eq_3)
  show ?thesis
    by (rule first_reduction_keeps_initial_index [OF factory_appTabs n u])
qed

text \<open>
  C3. The claim is right and the code is not: a Pass action that names a tab without a nested
  router throws. \<^verbatim>\<open>tabRouters\<close> holds \<^verbatim>\<open>null\<close> for such a tab, the guard of line 115 is
  \<^verbatim>\<open>childRouter !== undefined\<close>, and line 126 calls a method of \<^verbatim>\<open>null\<close>.
\<close>

theorem pass_to_leaf_route_throws:
  "TabRouter [(''Home'', plain), (''Profile'', plain)] defaults = Inr homeTabs \<and>
   tabRouters homeTabs ''Profile'' = Some None \<and>
   getStateForAction homeTabs
     (Action PASS (Some ''Profile'') None None (Some (Action SET_PARAMS None (Some ''Profile'')
        (Some [''a'' \<mapsto> 1]) None)))
     (Some 2) homeHeap = Inl TypeError"
  by (simp add: factory_defs js_defs collab_defs reducer_defs example_defs)

text \<open>
  C4, as the claim states it, fails for a Pass action. Profile is the active tab of the state
  7 and its router answers \<^verbatim>\<open>null\<close> to the embedded Navigate; the Pass branch, which comes
  first, has the router of More reduce the embedded action and returns a new state.
\<close>

theorem pass_returns_before_active_tab:
  "activeTabRouter_of appTabs appHeap 7 = Some (as_router profileTabs) \<and>
   arr_get [Ref 0, Ref 3, Ref 6] (index (objs appHeap 7)) = Some 3 \<and>
   forwarded (Action PASS (Some ''More'') None None (Some (navigate ''Feed''))) = navigate ''Feed'' \<and>
   getStateForAction_of (as_router profileTabs) (navigate ''Feed'') (Some 3) appHeap
     = Inr (None, appHeap) \<and>
   getStateForAction appTabs (Action PASS (Some ''More'') None None (Some (navigate ''Feed'')))
     (Some 7) appHeap
     = Inr (Some 9, appHeap\<lparr>objs := (objs appHeap)(9 := root 1 [0, 3, 6]), lim := 10\<rparr>)"
  by (simp add: js_defs collab_defs reducer_defs example_defs codec_defs)

text \<open>
  C4, amended. For a supplied input state, when the Init merge and the Pass branch let the
  action through (the Pass branch returns nothing), the active tab has a nested router and
  that router answers \<^verbatim>\<open>null\<close> to \<^verbatim>\<open>action.action || action\<close> on the active route, then
  \<^verbatim>\<open>getStateForAction\<close> returns \<^verbatim>\<open>null\<close>.
\<close>

theorem active_null_propagates:
  assumes "initAction a s h = Inr h1"
    and "passAction tr a s h1 = Inr (None, h2)"
    and "routes (objs h2 s) = Some rs"
    and "activeTabRouter_of tr h2 s = Some r"
    and "getStateForAction_of r (forwarded a) (arr_get rs (index (objs h2 s))) h2 = Inr (None, h3)"
  shows "getStateForAction tr a (Some s) h = Inr (None, h3)"
  using assms
  by (simp add: getStateForAction_def mapDeprecatedActionAndWarn_def defaultState_supplied
        routes_of_def activeTab_def Let_def)

theorem active_null_propagates_witness:
  "getStateForAction appTabs (navigate ''Feed'') (Some 7) appHeap = Inr (None, appHeap)"
proof -
  have 1: "initAction (navigate ''Feed'') 7 appHeap = Inr appHeap"
    by (simp add: initAction_def navigate_def)
  have 2: "passAction appTabs (navigate ''Feed'') 7 appHeap = Inr (None, appHeap)"
    by (simp add: passAction_def navigate_def)
  have 3: "routes (objs appHeap 7) = Some [Ref 0, Ref 3, Ref 6]"
    by (simp add: example_defs js_defs)
  have 4: "activeTabRouter_of appTabs appHeap 7 = Some (as_router profileTabs)"
    by (simp add: activeTabRouter_of_def example_defs js_defs)
  have 5: "getStateForAction_of (as_router profileTabs) (forwarded (navigate ''Feed''))
             (arr_get [Ref 0, Ref 3, Ref 6] (index (objs appHeap 7))) appHeap = Inr (None, appHeap)"
    by (simp add: js_defs collab_defs reducer_defs example_defs codec_defs)
  show ?thesis
    by (rule active_null_propagates [OF 1 2 3 4 5])
qed

text \<open>
  C5. The claim is right and the code is not, for a tab whose name is the empty string:
  \<^verbatim>\<open>didNavigate\<close> is \<^verbatim>\<open>!!\<close> of the name that \<^verbatim>\<open>order.find\<close> returns (line 176), which is false for
  that name, so the function goes on to line 281 and returns the input state instead of
  \<^verbatim>\<open>null\<close>. (For any other name \<open>navigate_active_unchanged\<close> proves the claim.)
\<close>

theorem navigate_to_active_blank_tab:
  "TabRouter [([], plain), (''Profile'', plain)] defaults = Inr blankTabs \<and>
   list_get (order blankTabs) (index (objs blankHeap 2)) = Some [] \<and>
   getStateForAction blankTabs (navigate []) (Some 2) blankHeap = Inr (Some 2, blankHeap)"
  by (simp add: factory_defs js_defs collab_defs reducer_defs example_defs)

text \<open>
  C6, as the claim states it, fails when the active tab has a nested router that handles the
  Back action. In the state 7 the active tab Profile is not the initial tab, and its router
  moves from Feed to its own initial route: the state returned keeps the index 1 and holds the
  new child state 9 in place of 3.
\<close>

theorem back_handled_by_active_tab:
  "shouldBackNavigateToInitialRoute appTabs \<and> initialRouteIndex appTabs = 0 \<and>
   index (objs appHeap 7) = Some 1 \<and>
   getStateForAction appTabs (Action BACK None None None None) (Some 7) appHeap
     = Inr (Some 10,
            appHeap\<lparr>objs := (objs appHeap)
                      (9 := node ''Profile'' 0 [1, 2], 10 := root 1 [0, 9, 6]),
                    lim := 11\<rparr>)"
  by (simp add: js_defs collab_defs reducer_defs example_defs codec_defs)

text \<open>
  C6, amended. With \<open>backBehavior = initialRoute\<close>, a supplied input state whose active index
  is not the initial one, and a Back action whose key is absent or the key of the active
  route: if the active tab has no nested router, or its router returns the active route it
  was given, the result is a new state that differs from the input state in its index only,
  which is the position of the initial route; every object of the store is as it was.
\<close>

theorem back_resets_index:
  assumes "routes (objs h s) = Some (map Ref rs)" and "index (objs h s) = Some i"
    and "i < length rs"
    and "shouldBackNavigateToInitialRoute tr" and "i \<noteq> initialRouteIndex tr"
    and "a_type a = BACK" and "a_key a = None \<or> a_key a = key (objs h (rs ! i))"
    and "\<forall>r. activeTabRouter_of tr h s = Some r \<longrightarrow>
           getStateForAction_of r (forwarded a) (Some (rs ! i)) h = Inr (Some (rs ! i), h)"
  shows "\<exists>h'. getStateForAction tr a (Some s) h = Inr (Some (lim h), h')
           \<and> objs h' (lim h) = (objs h s)\<lparr>index := Some (initialRouteIndex tr)\<rparr>
           \<and> (\<forall>x<lim h. objs h' x = objs h x)"
proof -
  have 1: "initAction a s h = Inr h"
    using assms(6) by (simp add: initAction_skip)
  have 2: "passAction tr a s h = Inr (None, h)"
    using assms(6) by (simp add: passAction_skip)
  have 3: "arr_get (map Ref rs) (Some i) = Some (rs ! i)"
    using assms(3) by (simp add: arr_get_dense)
  have 4: "activeTab tr a (Some s) s (Some (rs ! i)) h = Inr (None, h)"
    using assms(8) by (rule activeTab_unhandled)
  have 5: "tabChange tr a (Some s) s (Some (rs ! i)) h
             = Inr (Some (Some (lim h)), snd (alloc ((objs h s)\<lparr>index := Some (initialRouteIndex tr)\<rparr>) h))"
    using assms(2,4,5,6,7)
    by (auto simp: tabChange_def isBackEligible_active didNavigate_of_def Let_def alloc_def)
  have "getStateForAction tr a (Some s) h
          = Inr (Some (lim h), snd (alloc ((objs h s)\<lparr>index := Some (initialRouteIndex tr)\<rparr>) h))"
    using assms(1,2) 1 2 3 4 5
    by (simp add: getStateForAction_def mapDeprecatedActionAndWarn_def defaultState_supplied
          routes_of_def)
  then show ?thesis
    by (simp add: alloc_def)
qed

theorem back_resets_index_witness:
  "\<exists>h'. getStateForAction appTabs (Action BACK None None None None) (Some 8) appHeap
            = Inr (Some (lim appHeap), h')
         \<and> objs h' (lim appHeap) = (objs appHeap 8)\<lparr>index := Some (initialRouteIndex appTabs)\<rparr>
         \<and> (\<forall>x<lim appHeap. objs h' x = objs appHeap x)"
proof -
  have r: "routes (objs appHeap 8) = Some (map Ref [0, 3, 6])"
    and i: "index (objs appHeap 8) = Some 2" and l: "(2::nat) < length [0::nat, 3, 6]"
    and b: "shouldBackNavigateToInitialRoute appTabs" and n: "2 \<noteq> initialRouteIndex appTabs"
    by (simp_all add: example_defs js_defs)
  have act: "\<forall>r. activeTabRouter_of appTabs appHeap 8 = Some r \<longrightarrow>
           getStateForAction_of r (forwarded (Action BACK None None None None))
             (Some ([0, 3, 6] ! 2)) appHeap
             = Inr (Some ([0, 3, 6] ! 2), appHeap)"
    by (auto simp add: js_defs collab_defs reducer_defs example_defs codec_defs)
  show ?thesis
    by (rule back_resets_index [OF r i l b n _ _ act]) simp_all
qed

text \<open>
  C7. A supplied input state comes back as the very same object, and the store is as it was,
  when the action matches no branch: it is no Init with params; the Pass branch does not take
  it; the router of the active tab, if there is one, returns the active route it was given;
  no Back moves the index; a Navigate names no tab; a SetParams names no key of the routes;
  and every other tab with a nested router gets its own route back from it.
\<close>

theorem unmatched_action_returns_input_state:
  assumes "routes (objs h s) = Some (map Ref rs)" and "index (objs h s) = Some i"
    and "i < length rs"
    and "a_type a = INIT \<longrightarrow> a_params a = None"
    and "a_type a = PASS \<longrightarrow>
           a_action a = None \<or> tabRouters tr (js_String (a_routeName a)) = None"
    and "\<forall>r. activeTabRouter_of tr h s = Some r \<longrightarrow>
           getStateForAction_of r (forwarded a) (Some (rs ! i)) h = Inr (Some (rs ! i), h)"
    and "a_type a = BACK \<longrightarrow>
           \<not> shouldBackNavigateToInitialRoute tr \<or> initialRouteIndex tr = i
           \<or> (a_key a \<noteq> None \<and> a_key a \<noteq> key (objs h (rs ! i)))"
    and "a_type a = NAVIGATE \<longrightarrow> findTab (order tr) (a_routeName a) = None"
    and "a_type a = SET_PARAMS \<longrightarrow> (\<forall>r\<in>set rs. key (objs h r) \<noteq> a_key a)"
    and "\<forall>k<length (order tr). k \<noteq> i \<longrightarrow>
           k < length rs \<and>
           (\<forall>r. tabRouters tr (order tr ! k) = Some (Some r) \<longrightarrow>
                getStateForAction_of r a (Some (rs ! k)) h = Inr (Some (rs ! k), h))"
  shows "getStateForAction tr a (Some s) h = Inr (Some s, h)"
proof -
  have 1: "initAction a s h = Inr h"
    using assms(4) by (auto simp: initAction_skip)
  have 2: "passAction tr a s h = Inr (None, h)"
    using assms(5) by (auto simp: passAction_skip)
  have 3: "arr_get (map Ref rs) (Some i) = Some (rs ! i)"
    using assms(3) by (simp add: arr_get_dense)
  have 4: "activeTab tr a (Some s) s (Some (rs ! i)) h = Inr (None, h)"
    using assms(6) by (rule activeTab_unhandled)
  have 5: "tabChange tr a (Some s) s (Some (rs ! i)) h = Inr (None, h)"
    using assms(1,2,7,8,9) by (rule tabChange_unhandled)
  have 6: "broadcast tr a s h = Inr (Some s, h)"
    using assms(1) by (rule broadcast_unhandled) (use assms(2,10) in auto)
  show ?thesis
    using assms(1,2) 1 2 3 4 5 6
    by (simp add: getStateForAction_def mapDeprecatedActionAndWarn_def defaultState_supplied
          routes_of_def)
qed

theorem unmatched_action_returns_input_state_witness:
  "getStateForAction appTabs (Action (OTHER ''refresh'') None None None None) (Some 7) appHeap
     = Inr (Some 7, appHeap)"
proof -
  let ?a = "Action (OTHER ''refresh'') None None None None :: int action"
  have r: "routes (objs appHeap 7) = Some (map Ref [0, 3, 6])"
    and i: "index (objs appHeap 7) = Some 1" and l: "(1::nat) < length [0::nat, 3, 6]"
    by (simp_all add: example_defs js_defs)
  have act: "\<forall>r. activeTabRouter_of appTabs appHeap 7 = Some r \<longrightarrow>
           getStateForAction_of r (forwarded ?a) (Some ([0, 3, 6] ! 1)) appHeap
             = Inr (Some ([0, 3, 6] ! 1), appHeap)"
    by (auto simp add: js_defs collab_defs reducer_defs example_defs codec_defs)
  have sib: "\<forall>k<length (order appTabs). k \<noteq> 1 \<longrightarrow>
           k < length [0::nat, 3, 6] \<and>
           (\<forall>r. tabRouters appTabs (order appTabs ! k) = Some (Some r) \<longrightarrow>
                getStateForAction_of r ?a (Some ([0, 3, 6] ! k)) appHeap
                  = Inr (Some ([0, 3, 6] ! k), appHeap))"
  proof (intro allI impI)
    fix k :: nat
    assume "k < length (order appTabs)" and "k \<noteq> 1"
    then have "k = 0 \<or> k = 2"
      by (auto simp: appTabs_def)
    then show "k < length [0::nat, 3, 6] \<and>
           (\<forall>r. tabRouters appTabs (order appTabs ! k) = Some (Some r) \<longrightarrow>
                getStateForAction_of r ?a (Some ([0, 3, 6] ! k)) appHeap
                  = Inr (Some ([0, 3, 6] ! k), appHeap))"
      by (auto simp add: js_defs collab_defs reducer_defs example_defs codec_defs)
  qed
  show ?thesis
    by (rule unmatched_action_returns_input_state [OF r i l _ _ act _ _ _ sib]) simp_all
qed




text \<open>
  C9. The claim is right and the code is not. In the state 7 the active route is Profile, which
  has a nested router and the declared path \<open>Profile\<close>; its path is \<open>Profile/Feed\<close>, and the
  action resolved from that path names Home. \<open>pathMatch\<close> is \<^verbatim>\<open>false\<close> whatever the path is (lines
  335 to 338), and a tab without a nested router matches every path when no params are given
  (line 360), against the note of line 357.
\<close>

theorem path_round_trip_names_first_tab:
  "TabRouter [(''Home'', plain), (''Profile'', nested profileTabs), (''More'', nested moreTabs)]
     defaults = Inr appTabs \<and>
   list_get (order appTabs) (index (objs appHeap 7)) = Some ''Profile'' \<and>
   tabRouters appTabs ''Profile'' = Some (Some (as_router profileTabs)) \<and>
   paths appTabs ''Profile'' = Some ''Profile'' \<and>
   getPathAndParamsForState appTabs 7 appHeap = Inr (Some ''Profile/Feed'', None) \<and>
   getActionForPathAndParams appTabs ''Profile/Feed'' None = Inr (Some (navigate ''Home''))"
  by (simp add: factory_defs js_defs collab_defs codec_defs example_defs)

text \<open>
  C10. The claim is right and the code is not: with no input state \<^verbatim>\<open>getStateForAction\<close> does not
  always return a state. A Pass action that names a tab without a nested router throws, by the
  defect of C3: \<^verbatim>\<open>tabRouters\<close> holds \<^verbatim>\<open>null\<close> for Profile, \<^verbatim>\<open>null\<close> passes the guard of line 115, the
  synthesized state has a route named Profile, and line 126 calls a method of \<^verbatim>\<open>null\<close>. The
  guards of lines 149 and 243 do what the claim says of them: no call without an input state
  returns \<^verbatim>\<open>null\<close> (\<open>absent_state_never_null\<close>).
\<close>

theorem first_pass_to_leaf_route_throws:
  "TabRouter [(''Home'', plain), (''Profile'', plain)] defaults = Inr homeTabs \<and>
   tabRouters homeTabs ''Profile'' = Some None \<and>
   getStateForAction homeTabs (Action PASS (Some ''Profile'') None None (Some (init None)))
     None empty_heap = Inl TypeError"
  by (simp add: factory_defs js_defs collab_defs reducer_defs example_defs empty_heap_def)

end
